theory Spec2Isabelle
  imports Main "HOL-Library.Word" "HOL-Library.Sublist"
begin

section \<open>JavaScript strings and errors\<close>

text \<open>
  A JavaScript string is a sequence of UTF-16 code units, and \<open>length\<close>, \<open>slice\<close>,
  \<open>startsWith\<close>, \<open>endsWith\<close>, \<open>includes\<close> and \<open>lastIndexOf\<close> all count code units.
  A string is therefore a list of 16-bit words; \<open>js\<close> writes an ASCII literal.
\<close>

type_synonym jsstring = "16 word list"

definition js :: "string \<Rightarrow> jsstring" where
  "js s = map of_char s"

definition startsWith :: "jsstring \<Rightarrow> jsstring \<Rightarrow> bool" where
  "startsWith s t = (take (length t) s = t)"

definition endsWith :: "jsstring \<Rightarrow> jsstring \<Rightarrow> bool" where
  "endsWith s t = (length t \<le> length s \<and> drop (length s - length t) s = t)"

text \<open>\<open>occursAt s t i\<close>: the code units of \<open>t\<close> stand in \<open>s\<close> from index \<open>i\<close> on.\<close>

definition occursAt :: "jsstring \<Rightarrow> jsstring \<Rightarrow> nat \<Rightarrow> bool" where
  "occursAt s t i = (take (length t) (drop i s) = t)"

definition js_includes :: "jsstring \<Rightarrow> jsstring \<Rightarrow> bool" where
  "js_includes s t = list_ex (occursAt s t) [0..<Suc (length s)]"

text \<open>
  \<open>s.lastIndexOf(t)\<close> with no start index: the greatest index at which \<open>t\<close> occurs in
  \<open>s\<close>, and \<open>-1\<close> when there is none. The empty string occurs at every index up to
  \<open>s.length\<close>.
\<close>

definition lastIndexOf :: "jsstring \<Rightarrow> jsstring \<Rightarrow> int" where
  "lastIndexOf s t =
     (case filter (occursAt s t) (rev [0..<Suc (length s)]) of
        [] \<Rightarrow> - 1
      | i # _ \<Rightarrow> int i)"

text \<open>\<open>s.slice(a, b)\<close>: a negative index counts from the end, and both are clamped.\<close>

definition js_slice :: "jsstring \<Rightarrow> int \<Rightarrow> int \<Rightarrow> jsstring" where
  "js_slice s a b =
     (let n = int (length s);
          from = (if a < 0 then max (n + a) 0 else min a n);
          to = (if b < 0 then max (n + b) 0 else min b n)
      in take (nat (to - from)) (drop (nat from) s))"

text \<open>
  Thrown values. Every value this code throws or receives from a rejected provider call
  is an object: its class, its \<open>message\<close> and, for provider errors, its \<open>code\<close>.
\<close>

datatype error_class =
    Error | TypeError | SyntaxError
  | InvalidInput | InvalidEnvironment | ServerError | NotFound | UserAborted
  | AWSError

datatype js_error = JsError (cls: error_class) (message: jsstring) (code: "jsstring option")

section \<open>Function names (conf.ts)\<close>

text \<open>
  \<^verbatim>\<open>
  const getLongFunctionName = ({ stackName, functionName }) => {
    // in case it's already expanded
    if (functionName.lastIndexOf(stackName) === 0) return functionName
    return `${stackName}-${functionName}`
  }
  \<close>
\<close>

definition getLongFunctionName :: "jsstring \<Rightarrow> jsstring \<Rightarrow> jsstring" where
  "getLongFunctionName stackName functionName =
     (if lastIndexOf functionName stackName = 0 then functionName
      else stackName @ js ''-'' @ functionName)"

section \<open>Stack statuses and companion stack names (utils.ts)\<close>

text \<open>
  \<^verbatim>\<open>
  const isUpdateableStatus = (status) => {
    return status.endsWith('_COMPLETE') && !status.startsWith('DELETE_')
  }
  \<close>
\<close>

definition isUpdateableStatus :: "jsstring \<Rightarrow> bool" where
  "isUpdateableStatus status =
     (endsWith status (js ''_COMPLETE'') \<and> \<not> startsWith status (js ''DELETE_''))"

text \<open>
  \<open>sha256\<close> of the source hashes with the platform's crypto library and prints the digest
  in hexadecimal. The digest function is a parameter of the model.
  \<^verbatim>\<open>
  const shortenString = (str: string, maxLength: number) => {
    const tooLongBy = str.length - maxLength
    if (tooLongBy <= 0) return str
    if (str.length < 6) throw new Error(`string is too short: ${str}`)
    return str.slice(0, maxLength - 6) + sha256(str).slice(0, 6)
  }
  \<close>
\<close>

definition shortenString ::
  "(jsstring \<Rightarrow> jsstring) \<Rightarrow> jsstring \<Rightarrow> int \<Rightarrow> js_error + jsstring" where
  "shortenString sha256 str maxLength =
     (let tooLongBy = int (length str) - maxLength in
      if tooLongBy \<le> 0 then Inr str
      else if length str < 6
        then Inl (JsError Error (js ''string is too short: '' @ str) None)
      else Inr (js_slice str 0 (maxLength - 6) @ js_slice (sha256 str) 0 6))"

text \<open>
  \<^verbatim>\<open>MY_CLOUD_STACK_NAME_REGEX = /^tdl-(.*?)-ltd-([a-zA-Z]+)$/\<close>

  The dot matches any code unit but a line terminator; the class matches the ASCII
  letters. The first group is lazy: the matcher first tries to match the rest of the
  pattern, \<open>-ltd-([a-zA-Z]+)$\<close>, at the current position and only then lets the group take
  one more code unit.
\<close>

definition isLineTerminator :: "16 word \<Rightarrow> bool" where
  "isLineTerminator c = (c = 0x0A \<or> c = 0x0D \<or> c = 0x2028 \<or> c = 0x2029)"

definition isAsciiLetter :: "16 word \<Rightarrow> bool" where
  "isAsciiLetter c = ((0x41 \<le> c \<and> c \<le> 0x5A) \<or> (0x61 \<le> c \<and> c \<le> 0x7A))"

definition matchStageTail :: "jsstring \<Rightarrow> jsstring option" where
  "matchStageTail r =
     (if startsWith r (js ''-ltd-'') \<and> drop 5 r \<noteq> [] \<and> list_all isAsciiLetter (drop 5 r)
      then Some (drop 5 r) else None)"

fun matchLazyGroup :: "jsstring \<Rightarrow> jsstring \<Rightarrow> (jsstring \<times> jsstring) option" where
  "matchLazyGroup grp [] =
     (case matchStageTail [] of Some stage \<Rightarrow> Some (grp, stage) | None \<Rightarrow> None)"
| "matchLazyGroup grp (c # r) =
     (case matchStageTail (c # r) of
        Some stage \<Rightarrow> Some (grp, stage)
      | None \<Rightarrow> if isLineTerminator c then None else matchLazyGroup (grp @ [c]) r)"

definition MY_CLOUD_STACK_NAME_REGEX :: "jsstring \<Rightarrow> (jsstring \<times> jsstring) option" where
  "MY_CLOUD_STACK_NAME_REGEX name =
     (if startsWith name (js ''tdl-'') then matchLazyGroup [] (drop 4 name) else None)"

text \<open>
  \<^verbatim>\<open>
  const parseMyCloudStackName = (name: string) => {
    const [shortName, stage] = name.match(MY_CLOUD_STACK_NAME_REGEX).slice(1)
    return { shortName, stage }
  }
  export const isMyCloudStackName = (name: string) => MY_CLOUD_STACK_NAME_REGEX.test(name)
  export const getServicesStackName = (stackName: string) => {
    const { shortName } = parseMyCloudStackName(stackName)
    const shorterName = shortenString(shortName, 14)
    return `${shorterName}-srvcs` // max length 20 chars
  }
  \<close>
  When the name does not match, \<open>match\<close> gives \<open>null\<close> and \<open>.slice\<close> throws a TypeError.
\<close>

definition parseMyCloudStackName :: "jsstring \<Rightarrow> js_error + (jsstring \<times> jsstring)" where
  "parseMyCloudStackName name =
     (case MY_CLOUD_STACK_NAME_REGEX name of
        None \<Rightarrow> Inl (JsError TypeError (js ''Cannot read property slice of null'') None)
      | Some (shortName, stage) \<Rightarrow> Inr (shortName, stage))"

definition isMyCloudStackName :: "jsstring \<Rightarrow> bool" where
  "isMyCloudStackName name = (MY_CLOUD_STACK_NAME_REGEX name \<noteq> None)"

definition getServicesStackName ::
  "(jsstring \<Rightarrow> jsstring) \<Rightarrow> jsstring \<Rightarrow> js_error + jsstring" where
  "getServicesStackName sha256 stackName =
     (case parseMyCloudStackName stackName of
        Inl e \<Rightarrow> Inl e
      | Inr (shortName, stage) \<Rightarrow>
          (case shortenString sha256 shortName 14 of
             Inl e \<Rightarrow> Inl e
           | Inr shorterName \<Rightarrow> Inr (shorterName @ js ''-srvcs'')))"

section \<open>Listing stacks and stack resources (utils.ts)\<close>

text \<open>
  The provider's answers to successive calls are a script: a list whose n-th entry is what
  the n-th call gets, either a rejection or an output with its items and its
  continuation token. A listing returns three things: its outcome, the requests it sent
  in order, and the answers it left unused. The outcome is \<open>None\<close> when the loop asks for
  one more answer than the script holds, so a script is also the fuel of the loop.
\<close>

record StackSummary =
  StackId :: jsstring
  StackName :: jsstring
  StackStatus :: jsstring

record StackResourceSummary =
  LogicalResourceId :: jsstring
  PhysicalResourceId :: jsstring
  ResourceType :: jsstring

record 'a ListOutput =
  Summaries :: "'a list"
  NextToken :: "jsstring option"

record StackInfo =
  id' :: jsstring
  name' :: jsstring

text \<open>\<open>!token\<close>: an absent token and the empty string are both falsy.\<close>

definition truthy :: "jsstring option \<Rightarrow> bool" where
  "truthy tok = (case tok of None \<Rightarrow> False | Some t \<Rightarrow> t \<noteq> [])"

type_synonym 'a provider = "(js_error + 'a ListOutput) list"

text \<open>
  \<^verbatim>\<open>
  export const listStackResources = async (cloudformation, StackName, filter=acceptAll) => {
    let resources = []
    const opts = { StackName }
    while (true) {
      let { StackResourceSummaries, NextToken } =
        await cloudformation.listStackResources(opts).promise()
      resources = resources.concat(StackResourceSummaries.filter(filter))
      opts.NextToken = NextToken
      if (!opts.NextToken) break
    }
    return resources
  }
  \<close>
  A request is the \<open>opts\<close> object sent: the stack name and the token.
\<close>

fun listStackResources_loop ::
  "jsstring \<Rightarrow> (StackResourceSummary \<Rightarrow> bool) \<Rightarrow> jsstring option
   \<Rightarrow> StackResourceSummary list \<Rightarrow> StackResourceSummary provider
   \<Rightarrow> (js_error + StackResourceSummary list) option
      \<times> (jsstring \<times> jsstring option) list \<times> StackResourceSummary provider" where
  "listStackResources_loop nm flt tok resources [] = (None, [], [])"
| "listStackResources_loop nm flt tok resources (Inl err # script) =
     (Some (Inl err), [(nm, tok)], script)"
| "listStackResources_loop nm flt tok resources (Inr out # script) =
     (let resources' = resources @ filter flt (Summaries out);
          tok' = NextToken out
      in if \<not> truthy tok' then (Some (Inr resources'), [(nm, tok)], script)
         else (case listStackResources_loop nm flt tok' resources' script of
                 (r, reqs, script') \<Rightarrow> (r, (nm, tok) # reqs, script')))"

definition acceptAll :: "'a \<Rightarrow> bool" where
  "acceptAll item = True"

definition listStackResources ::
  "StackResourceSummary provider \<Rightarrow> jsstring \<Rightarrow> (StackResourceSummary \<Rightarrow> bool)
   \<Rightarrow> (js_error + StackResourceSummary list) option
      \<times> (jsstring \<times> jsstring option) list \<times> StackResourceSummary provider" where
  "listStackResources cloudformation nm flt =
     listStackResources_loop nm flt None [] cloudformation"

text \<open>
  \<^verbatim>\<open>
  export const listStacks = async (cloudformation, filter=acceptAll) => {
    const listStacksOpts = {
      StackStatusFilter: ['CREATE_COMPLETE', 'UPDATE_COMPLETE', 'UPDATE_ROLLBACK_COMPLETE']
    }
    let stackInfos = []
    let keepGoing = true
    while (keepGoing) {
      let { NextToken, StackSummaries } =
        await cloudformation.listStacks(listStacksOpts).promise()
      stackInfos = stackInfos.concat(StackSummaries.filter(filter)
        .map(({ StackId, StackName }) => ({ id: StackId, name: StackName })))
      listStacksOpts.NextToken = NextToken
      keepGoing = !!NextToken
    }
    return stackInfos
  }
  \<close>
\<close>

definition StackStatusFilter :: "jsstring list" where
  "StackStatusFilter =
     [js ''CREATE_COMPLETE'', js ''UPDATE_COMPLETE'', js ''UPDATE_ROLLBACK_COMPLETE'']"

definition toStackInfo :: "StackSummary \<Rightarrow> StackInfo" where
  "toStackInfo s = \<lparr> id' = StackId s, name' = StackName s \<rparr>"

fun listStacks_loop ::
  "(StackSummary \<Rightarrow> bool) \<Rightarrow> jsstring option \<Rightarrow> StackInfo list
   \<Rightarrow> StackSummary provider
   \<Rightarrow> (js_error + StackInfo list) option
      \<times> (jsstring list \<times> jsstring option) list \<times> StackSummary provider" where
  "listStacks_loop flt tok stackInfos [] = (None, [], [])"
| "listStacks_loop flt tok stackInfos (Inl err # script) =
     (Some (Inl err), [(StackStatusFilter, tok)], script)"
| "listStacks_loop flt tok stackInfos (Inr out # script) =
     (let stackInfos' = stackInfos @ map toStackInfo (filter flt (Summaries out));
          tok' = NextToken out;
          keepGoing = truthy tok'
      in if keepGoing
         then (case listStacks_loop flt tok' stackInfos' script of
                 (r, reqs, script') \<Rightarrow> (r, (StackStatusFilter, tok) # reqs, script'))
         else (Some (Inr stackInfos'), [(StackStatusFilter, tok)], script))"

definition listStacks ::
  "StackSummary provider \<Rightarrow> (StackSummary \<Rightarrow> bool)
   \<Rightarrow> (js_error + StackInfo list) option
      \<times> (jsstring list \<times> jsstring option) list \<times> StackSummary provider" where
  "listStacks cloudformation flt = listStacks_loop flt None [] cloudformation"

text \<open>
  \<^verbatim>\<open>
  export const getStackId = async (cloudformation, stackName) => {
    const stacks = await listStacks(cloudformation,
      ({ StackName, StackStatus }) =>
        StackName === stackName && isUpdateableStatus(StackStatus))
    return stacks[0] && stacks[0].id
  }
  \<close>
  The value is \<open>undefined\<close>, here \<open>None\<close>, when no stack passes the filter.
\<close>

definition getStackId ::
  "StackSummary provider \<Rightarrow> jsstring
   \<Rightarrow> (js_error + jsstring option) option
      \<times> (jsstring list \<times> jsstring option) list \<times> StackSummary provider" where
  "getStackId cloudformation stackName =
     (case listStacks cloudformation
             (\<lambda>s. StackName s = stackName \<and> isUpdateableStatus (StackStatus s)) of
        (None, reqs, script) \<Rightarrow> (None, reqs, script)
      | (Some (Inl err), reqs, script) \<Rightarrow> (Some (Inl err), reqs, script)
      | (Some (Inr stacks), reqs, script) \<Rightarrow>
          (Some (Inr (case stacks of [] \<Rightarrow> None | s # _ \<Rightarrow> Some (id' s))), reqs, script))"

section \<open>Deleting a stack and destroying a bucket (utils.ts)\<close>

text \<open>
  What the code does to the outside world is recorded as a list of effects, in order:
  the provider calls it makes and the pauses it takes (\<open>exports.wait(millis)\<close>).
\<close>

datatype effect =
    DeleteStackCall jsstring
  | Wait nat
  | WaitForCall jsstring jsstring
  | EmptyBucketCall jsstring
  | DeleteBucketCall jsstring

text \<open>
  \<^verbatim>\<open>
  export const getConsoleLinkForStacksInRegion = ({ region, status='active' }) => {
    return `https://${region}.console.aws.amazon.com/cloudformation/home?region=${region}#/stacks?filter=${status}`
  }
  export const waitFor = async ({ cloudformation, stackName, event }) => {
    try {
      return await cloudformation.waitFor(event, { StackName: stackName }).promise()
    } catch (err) {
      const url = getConsoleLinkForStacksInRegion({ region: cloudformation.config.region, status: 'failed' })
      throw new CustomErrors.ServerError(`operation may have failed. Check your stacks here: ${url}`)
    }
  }
  export const awaitStackDelete = async (cloudformation, stackName) => {
    return waitFor({ cloudformation, event: 'stackDeleteComplete', stackName })
  }
  \<close>
  The provider's native waiter either resolves or rejects; its answer is an argument.
\<close>

definition getConsoleLinkForStacksInRegion :: "jsstring \<Rightarrow> jsstring \<Rightarrow> jsstring" where
  "getConsoleLinkForStacksInRegion region status =
     js ''https://'' @ region @ js ''.console.aws.amazon.com/cloudformation/home?region=''
       @ region @ js ''#/stacks?filter='' @ status"

definition waitFor ::
  "jsstring \<Rightarrow> jsstring \<Rightarrow> jsstring \<Rightarrow> js_error + unit \<Rightarrow> (js_error + unit) \<times> effect list" where
  "waitFor region stackName event answer =
     (case answer of
        Inr u \<Rightarrow> (Inr u, [WaitForCall event stackName])
      | Inl err \<Rightarrow>
          (Inl (JsError ServerError
                  (js ''operation may have failed. Check your stacks here: ''
                     @ getConsoleLinkForStacksInRegion region (js ''failed'')) None),
           [WaitForCall event stackName]))"

definition awaitStackDelete ::
  "jsstring \<Rightarrow> jsstring \<Rightarrow> js_error + unit \<Rightarrow> (js_error + unit) \<times> effect list" where
  "awaitStackDelete region stackName answer =
     waitFor region stackName (js ''stackDeleteComplete'') answer"

text \<open>
  \<^verbatim>\<open>
  export const deleteStack = async ({ cloudformation, params }) => {
    while (true) {
      try {
        await cloudformation.deleteStack(params).promise()
        break
      } catch (err) {
        if (!err.message.includes('UPDATE_ROLLBACK_COMPLETE_CLEANUP_IN_PROGRESS')) {
          throw err
        }
        // back off, try again
        await exports.wait(5000)
      }
    }
    return async () => {
      await exports.wait(5000)
      await awaitStackDelete(cloudformation, params.StackName)
    }
  }
  \<close>
  The script holds the provider's answers to the successive delete calls. The loop has
  no bound of its own: its outcome is \<open>None\<close> when the script ends while it still retries.
  The value returned is the closure; \<open>stackDeleteWaiter\<close> is what running it does, given
  the region and the answer of the provider's waiter.
\<close>

definition isCleanupInProgress :: "js_error \<Rightarrow> bool" where
  "isCleanupInProgress err =
     js_includes (message err) (js ''UPDATE_ROLLBACK_COMPLETE_CLEANUP_IN_PROGRESS'')"

fun deleteStack_loop ::
  "jsstring \<Rightarrow> (js_error + unit) list
   \<Rightarrow> (js_error + unit) option \<times> effect list \<times> (js_error + unit) list" where
  "deleteStack_loop nm [] = (None, [], [])"
| "deleteStack_loop nm (Inr u # script) = (Some (Inr u), [DeleteStackCall nm], script)"
| "deleteStack_loop nm (Inl err # script) =
     (if \<not> isCleanupInProgress err then (Some (Inl err), [DeleteStackCall nm], script)
      else (case deleteStack_loop nm script of
              (r, effs, script') \<Rightarrow> (r, DeleteStackCall nm # Wait 5000 # effs, script')))"

definition stackDeleteWaiter ::
  "jsstring \<Rightarrow> jsstring \<Rightarrow> js_error + unit \<Rightarrow> (js_error + unit) \<times> effect list" where
  "stackDeleteWaiter stackName region answer =
     (case awaitStackDelete region stackName answer of
        (r, effs) \<Rightarrow> (r, Wait 5000 # effs))"

definition deleteStack ::
  "(js_error + unit) list \<Rightarrow> jsstring
   \<Rightarrow> (js_error + (jsstring \<Rightarrow> js_error + unit \<Rightarrow> (js_error + unit) \<times> effect list)) option
      \<times> effect list \<times> (js_error + unit) list" where
  "deleteStack cloudformation stackName =
     (case deleteStack_loop stackName cloudformation of
        (None, effs, script) \<Rightarrow> (None, effs, script)
      | (Some (Inl err), effs, script) \<Rightarrow> (Some (Inl err), effs, script)
      | (Some (Inr u), effs, script) \<Rightarrow>
          (Some (Inr (stackDeleteWaiter stackName)), effs, script))"

text \<open>
  \<^verbatim>\<open>
  export const destroyBucket = async (s3: AWS.S3, Bucket: string) => {
    await emptyBucket(s3, Bucket)
    try {
      await s3.deleteBucket({ Bucket }).promise()
    } catch (err) {
      Errors.ignore(err, [
        { code: 'ResourceNotFoundException' },
        { code: 'NoSuchBucket' },
      ])
    }
  }
  \<close>
  \<open>Errors.ignore\<close> belongs to the library \<open>@tradle/errors\<close>: it throws the error again
  unless the error matches one of the patterns, and a pattern \<open>{ code: c }\<close> matches an
  error whose \<open>code\<close> is \<open>c\<close>. \<open>emptyBucket\<close> is imported from \<open>./empty-bucket\<close>; how that
  call ended (resolved, or rejected with an error) is an argument, and so is the
  provider's answer to \<open>deleteBucket\<close>.
\<close>

definition Errors_matches :: "js_error \<Rightarrow> jsstring list \<Rightarrow> bool" where
  "Errors_matches err codes = list_ex (\<lambda>c. code err = Some c) codes"

definition Errors_ignore :: "js_error \<Rightarrow> jsstring list \<Rightarrow> js_error + unit" where
  "Errors_ignore err codes = (if \<not> Errors_matches err codes then Inl err else Inr ())"

definition destroyBucket ::
  "js_error + unit \<Rightarrow> js_error + unit \<Rightarrow> jsstring \<Rightarrow> (js_error + unit) \<times> effect list" where
  "destroyBucket emptied deleted Bucket =
     (case emptied of
        Inl err \<Rightarrow> (Inl err, [EmptyBucketCall Bucket])
      | Inr u \<Rightarrow>
          (case deleted of
             Inr v \<Rightarrow> (Inr (), [EmptyBucketCall Bucket, DeleteBucketCall Bucket])
           | Inl err \<Rightarrow>
               (Errors_ignore err [js ''ResourceNotFoundException'', js ''NoSuchBucket''],
                [EmptyBucketCall Bucket, DeleteBucketCall Bucket])))"

section \<open>Invoking a function (conf.ts)\<close>

text \<open>
  The instance fields of \<open>Conf\<close> that an invocation reads, the options of one invocation,
  and the request and response of the provider's \<open>lambda.invoke\<close>. A field that may be
  \<open>undefined\<close> is an option. A string is falsy when it is \<open>undefined\<close> or empty, which is what
  \<open>truthy\<close> tests.
\<close>

record Conf =
  this_local :: bool
  this_remote :: bool
  this_stackName :: "jsstring option"
  this_project :: jsstring
  this_nodeFlags :: "(jsstring \<times> bool) list"

record 'v InvokeOpts =
  functionName :: "jsstring option"
  arg :: "'v option"
  local :: "bool option"
  noWarning :: bool

record LambdaRequest =
  InvocationType :: jsstring
  FunctionName :: jsstring
  RequestPayload :: jsstring

record LambdaResponse =
  StatusCode :: "int option"
  Payload :: "jsstring option"
  FunctionError :: "jsstring option"

text \<open>
  What \<open>shelljs.exec\<close> and the read of the temporary output file give back after a local
  invocation: the exit code, the captured error output and the content of the output file.
\<close>

record ExecResult =
  exit_code :: int
  stderr :: jsstring
  output_file :: jsstring

text \<open>
  Everything outside the process is a parameter: the answer to a confirmation prompt
  (\<open>confirmOrAbort\<close> throws when the user declines), the answer to the prompt for a
  function name, the provider's answer to \<open>lambda.invoke\<close>, the platform's \<open>JSON.parse\<close> and
  \<open>JSON.stringify\<close>, the empty object literal \<open>{}\<close>, and the local emulator run, which
  covers the temporary files, the shell command and the read of the output file. The
  emulator gets the project directory, the node flags, the function name and the argument;
  it fails with \<open>Inl\<close> when one of the file operations throws.
\<close>

record 'v World =
  confirmOrAbort :: "jsstring \<Rightarrow> js_error + unit"
  promptFn :: "jsstring \<Rightarrow> js_error + jsstring"
  lambda_invoke :: "LambdaRequest \<Rightarrow> js_error + LambdaResponse"
  JSON_parse :: "jsstring \<Rightarrow> js_error + 'v"
  JSON_stringify :: "'v \<Rightarrow> jsstring"
  emptyObject :: 'v
  sls_invoke_local :: "jsstring \<Rightarrow> jsstring \<Rightarrow> jsstring option \<Rightarrow> 'v option \<Rightarrow> js_error + ExecResult"

text \<open>
  A value an invocation returns: the parsed payload, or the raw output string that
  \<open>_invokeLocal\<close> returns unparsed when the output is empty (\<open>res && JSON.parse(res)\<close>).
\<close>

datatype 'v invoked = Parsed 'v | Raw jsstring

text \<open>The envelope \<open>{ error }\<close> or \<open>{ result }\<close>: an object in which a key is present or absent.\<close>

record 'v envelope =
  error :: "js_error option"
  result :: "'v invoked option"

text \<open>
  \<^verbatim>\<open>
  private _ensureStackNameKnown = () => {
    if (this.remote && !this.stackName) {
      throw new CustomErrors.InvalidInput(`hm...are you sure you're in the right directory?`)
    }
  }
  \<close>
\<close>

definition ensureStackNameKnown :: "Conf \<Rightarrow> js_error + unit" where
  "ensureStackNameKnown this =
     (if this_remote this \<and> \<not> truthy (this_stackName this)
      then Inl (JsError InvalidInput
                  (js ''hm...are you sure you're in the right directory?'') None)
      else Inr ())"

text \<open>
  \<^verbatim>\<open>
  public getLongFunctionName = (functionName: string) => getLongFunctionName({
    stackName: this.stackName,
    functionName
  })
  \<close>
  An \<open>undefined\<close> function name has no \<open>lastIndexOf\<close>: a TypeError. An \<open>undefined\<close> stack
  name is converted to the string \<open>undefined\<close> by \<open>lastIndexOf\<close> and by the template.
\<close>

definition Conf_getLongFunctionName :: "Conf \<Rightarrow> jsstring option \<Rightarrow> js_error + jsstring" where
  "Conf_getLongFunctionName this fn =
     (case fn of
        None \<Rightarrow> Inl (JsError TypeError (js ''Cannot read property lastIndexOf of undefined'') None)
      | Some f \<Rightarrow>
          Inr (getLongFunctionName
                 (case this_stackName this of None \<Rightarrow> js ''undefined'' | Some s \<Rightarrow> s) f))"

text \<open>
  \<^verbatim>\<open>
  private _invoke = async ({ functionName, arg={}, noWarning }: InvokeOpts) => {
    // confirm if remote was not explicitly specified
    if (!(this.remote || noWarning)) {
      await confirmOrAbort(`Targeting REMOTE deployment. Continue?`)
    }
    this._ensureStackNameKnown()
    const { StatusCode, Payload, FunctionError } = await this.client.lambda.invoke({
      InvocationType: 'RequestResponse',
      FunctionName: this.getLongFunctionName(functionName),
      Payload: JSON.stringify(arg)
    }).promise()
    if (FunctionError || StatusCode >= 300) {
      const message = Payload || FunctionError
      throw new Error(message.toString())
    }
    return JSON.parse(Payload.toString())
  }
  \<close>
  \<open>functionFailed\<close> is the test \<open>FunctionError || StatusCode >= 300\<close>; an \<open>undefined\<close> status
  code compares false. \<open>failureMessage\<close> is \<open>Payload || FunctionError\<close>, which is \<open>undefined\<close>
  when both are, and then \<open>.toString()\<close> throws a TypeError.
\<close>

definition functionFailed :: "LambdaResponse \<Rightarrow> bool" where
  "functionFailed resp =
     (truthy (FunctionError resp) \<or> (case StatusCode resp of None \<Rightarrow> False | Some c \<Rightarrow> c \<ge> 300))"

definition failureMessage :: "LambdaResponse \<Rightarrow> jsstring option" where
  "failureMessage resp = (if truthy (Payload resp) then Payload resp else FunctionError resp)"

definition checkResponse :: "'v World \<Rightarrow> LambdaResponse \<Rightarrow> js_error + 'v invoked" where
  "checkResponse world resp =
     (if functionFailed resp then
        (case failureMessage resp of
           None \<Rightarrow> Inl (JsError TypeError (js ''Cannot read property toString of undefined'') None)
         | Some msg \<Rightarrow> Inl (JsError Error msg None))
      else
        (case Payload resp of
           None \<Rightarrow> Inl (JsError TypeError (js ''Cannot read property toString of undefined'') None)
         | Some payload \<Rightarrow>
             (case JSON_parse world payload of Inl err \<Rightarrow> Inl err | Inr v \<Rightarrow> Inr (Parsed v))))"

definition lambdaRequest :: "'v World \<Rightarrow> jsstring \<Rightarrow> 'v option \<Rightarrow> LambdaRequest" where
  "lambdaRequest world longName a =
     \<lparr> InvocationType = js ''RequestResponse'',
       FunctionName = longName,
       RequestPayload = JSON_stringify world (case a of None \<Rightarrow> emptyObject world | Some v \<Rightarrow> v) \<rparr>"

text \<open>
  \<open>awaitLambda\<close> is \<open>_invoke\<close> up to the provider's answer: the confirmation, the check
  of the stack name, the request and the awaited call. \<open>invoke_remote\<close> is \<open>_invoke\<close>.
\<close>

definition awaitLambda :: "Conf \<Rightarrow> 'v World \<Rightarrow> 'v InvokeOpts \<Rightarrow> js_error + LambdaResponse" where
  "awaitLambda this world opts =
     (case (if \<not> (this_remote this \<or> noWarning opts)
            then confirmOrAbort world (js ''Targeting REMOTE deployment. Continue?'')
            else Inr ()) of
        Inl err \<Rightarrow> Inl err
      | Inr u \<Rightarrow>
     (case ensureStackNameKnown this of
        Inl err \<Rightarrow> Inl err
      | Inr u \<Rightarrow>
     (case Conf_getLongFunctionName this (functionName opts) of
        Inl err \<Rightarrow> Inl err
      | Inr longName \<Rightarrow> lambda_invoke world (lambdaRequest world longName (arg opts)))))"

definition invoke_remote :: "Conf \<Rightarrow> 'v World \<Rightarrow> 'v InvokeOpts \<Rightarrow> js_error + 'v invoked" where
  "invoke_remote this world opts =
     (case awaitLambda this world opts of
        Inl err \<Rightarrow> Inl err
      | Inr resp \<Rightarrow> checkResponse world resp)"

text \<open>
  \<^verbatim>\<open>
  private _invokeLocal = async ({ functionName, arg }: InvokeOpts) => {
    const { project, nodeFlags } = this
    const flagsStr = Object.keys(nodeFlags)
      .filter(key => nodeFlags[key])
      .map(key => `--${key}`)
      .join(' ')
    ...
    const result = shelljs.exec(command, { silent: true })
    shelljs.cd(pwd)
    const res = read(tmpOutput.name).trim()
    if (result.code !== 0) throw new Error(`invoke failed: ${res || result.stderr}`)
    return res && JSON.parse(res)
  }
  \<close>
  \<open>trim\<close> removes white space and line terminators at both ends.
\<close>

definition isWhiteSpace :: "16 word \<Rightarrow> bool" where
  "isWhiteSpace c =
     (c = 0x09 \<or> c = 0x0B \<or> c = 0x0C \<or> c = 0x20 \<or> c = 0xA0 \<or> c = 0xFEFF \<or> c = 0x1680
      \<or> (0x2000 \<le> c \<and> c \<le> 0x200A) \<or> c = 0x202F \<or> c = 0x205F \<or> c = 0x3000
      \<or> isLineTerminator c)"

definition js_trim :: "jsstring \<Rightarrow> jsstring" where
  "js_trim s = rev (dropWhile isWhiteSpace (rev (dropWhile isWhiteSpace s)))"

fun js_join :: "jsstring \<Rightarrow> jsstring list \<Rightarrow> jsstring" where
  "js_join sep [] = []"
| "js_join sep [x] = x"
| "js_join sep (x # y # ys) = x @ sep @ js_join sep (y # ys)"

definition flagsStr :: "(jsstring \<times> bool) list \<Rightarrow> jsstring" where
  "flagsStr nodeFlags =
     js_join (js '' '') (map (\<lambda>key. js ''--'' @ key) (map fst (filter snd nodeFlags)))"

definition invoke_local :: "Conf \<Rightarrow> 'v World \<Rightarrow> 'v InvokeOpts \<Rightarrow> js_error + 'v invoked" where
  "invoke_local this world opts =
     (case sls_invoke_local world (this_project this) (flagsStr (this_nodeFlags this))
             (functionName opts) (arg opts) of
        Inl err \<Rightarrow> Inl err
      | Inr r \<Rightarrow>
          (let res = js_trim (output_file r) in
           if exit_code r \<noteq> 0
             then Inl (JsError Error
                         (js ''invoke failed: '' @ (if res \<noteq> [] then res else stderr r)) None)
           else if res = [] then Inr (Raw res)
           else (case JSON_parse world res of Inl err \<Rightarrow> Inl err | Inr v \<Rightarrow> Inr (Parsed v))))"

text \<open>
  \<^verbatim>\<open>
  public invoke = async (opts) => {
    let { functionName, arg, local=this.local } = opts
    if (!functionName) functionName = await promptFn(this, 'which function?')
    let result
    try {
      const promise = local ? this._invokeLocal(opts) : this._invoke(opts)
      result = await promise
    } catch (error) {
      return { error }
    }
    return { result }
  }
  public invokeAndReturn = async (opts: InvokeOpts) => {
    const { error, result } = await this.invoke(opts)
    if (error) throw error
    return result
  }
  \<close>
  The prompt stands before the \<open>try\<close>, so an error of the prompt is thrown by \<open>invoke\<close>
  itself; the name it returns is kept in a local variable and \<open>opts\<close> goes on unchanged.
  \<open>useLocal\<close> is the variable \<open>local\<close> with its default, and \<open>underlying\<close> is the invocation
  that \<open>invoke\<close> awaits inside the \<open>try\<close>.
\<close>

definition useLocal :: "Conf \<Rightarrow> 'v InvokeOpts \<Rightarrow> bool" where
  "useLocal this opts = (case local opts of None \<Rightarrow> this_local this | Some l \<Rightarrow> l)"

definition underlying :: "Conf \<Rightarrow> 'v World \<Rightarrow> 'v InvokeOpts \<Rightarrow> js_error + 'v invoked" where
  "underlying this world opts =
     (if useLocal this opts then invoke_local this world opts else invoke_remote this world opts)"

definition invoke :: "Conf \<Rightarrow> 'v World \<Rightarrow> 'v InvokeOpts \<Rightarrow> js_error + 'v envelope" where
  "invoke this world opts =
     (case (if \<not> truthy (functionName opts)
            then (case promptFn world (js ''which function?'') of
                    Inl err \<Rightarrow> Inl err | Inr f \<Rightarrow> Inr (Some f))
            else Inr (functionName opts)) of
        Inl err \<Rightarrow> Inl err
      | Inr fn \<Rightarrow>
          (case underlying this world opts of
             Inl err \<Rightarrow> Inr \<lparr> error = Some err, result = None \<rparr>
           | Inr r \<Rightarrow> Inr \<lparr> error = None, result = Some r \<rparr>))"

definition invokeAndReturn ::
  "Conf \<Rightarrow> 'v World \<Rightarrow> 'v InvokeOpts \<Rightarrow> js_error + 'v invoked option" where
  "invokeAndReturn this world opts =
     (case invoke this world opts of
        Inl err \<Rightarrow> Inl err
      | Inr env \<Rightarrow> (case error env of Some err \<Rightarrow> Inl err | None \<Rightarrow> Inr (result env)))"

section \<open>Deploy options and deploy items (conf.ts)\<close>

text \<open>
  An options object is a finite map from keys to values; a key may be present with the
  value \<open>undefined\<close>. The values that options take: \<open>undefined\<close>, \<open>null\<close>, booleans,
  numbers, strings, and the array of strings in \<open>args\<close>.
\<close>

datatype jsval =
    JUndefined | JNull | JBool bool | JNumber int | JString jsstring | JArray "jsstring list"

type_synonym jsobject = "jsstring \<Rightarrow> jsval option"

definition truthy_val :: "jsval \<Rightarrow> bool" where
  "truthy_val v =
     (case v of
        JUndefined \<Rightarrow> False | JNull \<Rightarrow> False | JBool b \<Rightarrow> b | JNumber n \<Rightarrow> n \<noteq> 0
      | JString s \<Rightarrow> s \<noteq> [] | JArray xs \<Rightarrow> True)"

text \<open>\<open>opts.key\<close> read as a condition: an absent key reads \<open>undefined\<close>.\<close>

definition truthyProp :: "jsobject \<Rightarrow> jsstring \<Rightarrow> bool" where
  "truthyProp obj key = (case obj key of None \<Rightarrow> False | Some v \<Rightarrow> truthy_val v)"

text \<open>
  \<open>_.isEmpty\<close> of lodash: true of \<open>undefined\<close> and \<open>null\<close>, of every boolean and number, and of
  an array or string of length zero.
\<close>

definition lodash_isEmpty :: "jsval option \<Rightarrow> bool" where
  "lodash_isEmpty v =
     (case v of
        None \<Rightarrow> True
      | Some (JString s) \<Rightarrow> s = []
      | Some (JArray xs) \<Rightarrow> xs = []
      | Some other \<Rightarrow> True)"

text \<open>
  \<^verbatim>\<open>
  const DEPLOYABLES = ['bot', 'style', 'models', 'modelsPack', 'terms']
  const getDeployables = opts => _.pick(opts, DEPLOYABLES)
  const getDeployablesKeys = opts => Object.keys(getDeployables(opts))
  const DEPLOY_ALL_OPTS = DEPLOYABLES.reduce((obj, prop) => {
    obj[prop] = true
    return obj
  }, {})
  \<close>
  \<open>_.pick\<close> keeps the listed keys that are present in the object, whatever their value, in
  the order of the list; \<open>_.size\<close> of the picked object is the length of that list of pairs.
\<close>

definition DEPLOYABLES :: "jsstring list" where
  "DEPLOYABLES = [js ''bot'', js ''style'', js ''models'', js ''modelsPack'', js ''terms'']"

definition getDeployables :: "jsobject \<Rightarrow> (jsstring \<times> jsval) list" where
  "getDeployables opts = List.map_filter (\<lambda>key. map_option (Pair key) (opts key)) DEPLOYABLES"

definition getDeployablesKeys :: "jsobject \<Rightarrow> jsstring list" where
  "getDeployablesKeys opts = map fst (getDeployables opts)"

definition DEPLOY_ALL_OPTS :: jsobject where
  "DEPLOY_ALL_OPTS = map_of (map (\<lambda>prop. (prop, JBool True)) DEPLOYABLES)"

text \<open>
  \<^verbatim>\<open>
  const normalizeDeployOpts = (opts, command='deploy') => {
    if (!_.isEmpty(opts.args)) {
      throw new CustomErrors.InvalidInput(`unknown arguments: ${opts.args.join(' ')}`)
    }
    const all = opts.all || !_.size(getDeployables(opts))
    if (all) {
      return _.extend({}, DEPLOY_ALL_OPTS, opts)
    }
    if (!_.size(getDeployables(opts))) {
      throw new CustomErrors.InvalidInput(`you didn't indicate anything to ${command}!`)
    }
    return opts
  }
  \<close>
  \<open>_.extend({}, a, b)\<close> is the map \<open>a\<close> overridden by every key of \<open>b\<close>. A non-empty \<open>args\<close> that
  is a string has no \<open>join\<close>: a TypeError.
\<close>

definition normalizeDeployOpts :: "jsobject \<Rightarrow> jsstring \<Rightarrow> js_error + jsobject" where
  "normalizeDeployOpts opts command =
     (if \<not> lodash_isEmpty (opts (js ''args'')) then
        (case opts (js ''args'') of
           Some (JArray xs) \<Rightarrow>
             Inl (JsError InvalidInput (js ''unknown arguments: '' @ js_join (js '' '') xs) None)
         | other \<Rightarrow> Inl (JsError TypeError (js ''opts.args.join is not a function'') None))
      else
        (let all = (truthyProp opts (js ''all'') \<or> length (getDeployables opts) = 0) in
         if all then Inr (DEPLOY_ALL_OPTS ++ opts)
         else if length (getDeployables opts) = 0
           then Inl (JsError InvalidInput
                       (js ''you didn't indicate anything to '' @ command @ js ''!'') None)
         else Inr opts))"

text \<open>
  The files that \<open>getDeployItems\<close> reads are parameters, each with the outcome of its read:
  \<open>read.style()\<close> and \<open>read.bot()\<close> give the parsed file, or \<open>undefined\<close> when the file is missing
  or empty, or throw on malformed JSON; \<open>read.terms()\<close> gives the text or \<open>undefined\<close>;
  \<open>read.models()\<close> and \<open>read.lenses()\<close> give the parsed files of a directory, as an array, or
  throw. A parsed document is a value of the type \<open>'j\<close>, and \<open>isTruthy\<close> says whether it is
  truthy: a file may hold \<open>null\<close>, \<open>false\<close>, \<open>0\<close> or the empty string. The library functions
  \<open>ModelsPack.pack\<close> and \<open>ModelsPack.getNamespace\<close> are parameters too, and either may throw;
  \<open>ModelsPack_getNamespace m\<close> stands for \<open>ModelsPack.getNamespace(m.id)\<close>, a string or
  \<open>undefined\<close>.

  The \<open>namespace\<close> handed to \<open>ModelsPack.pack\<close> is a string, or \<open>undefined\<close>, or the falsy
  document that \<open>getNamespace\<close> returns as it found it.
\<close>

datatype 'j namespace_arg = NamespaceString jsstring | NamespaceUndefined | NamespaceFalsy 'j

record 'j Files =
  read_style :: "js_error + 'j option"
  read_terms :: "js_error + jsstring option"
  read_models :: "js_error + 'j list"
  read_lenses :: "js_error + 'j list"
  read_bot :: "js_error + 'j option"
  isTruthy :: "'j \<Rightarrow> bool"
  ModelsPack_pack :: "'j namespace_arg \<Rightarrow> 'j list \<Rightarrow> 'j list \<Rightarrow> js_error + 'j"
  ModelsPack_getNamespace :: "'j \<Rightarrow> js_error + jsstring option"

text \<open>
  \<^verbatim>\<open>
  export const getNamespace = ({ models, lenses }) => {
    const model = _.values(models)[0] || _.values(lenses)[0]
    return model && ModelsPack.getNamespace(model.id)
  }
  export const pack = ({ namespace, models, lenses }) => {
    if (!(_.size(models) || _.size(lenses))) {
      throw new CustomErrors.InvalidInput('expected "models" and/or "lenses"')
    }
    if (!namespace) {
      namespace = getNamespace({ models, lenses })
    }
    const modelsPack = ModelsPack.pack({ namespace, models, lenses })
    return modelsPack
  }
  \<close>
  \<open>firstOf xs\<close> is \<open>_.values(xs)[0]\<close>, \<open>undefined\<close> for an empty array. \<open>firstModel\<close> is the
  variable \<open>model\<close>: the first model when there is one and it is truthy, and the first
  lens otherwise. \<open>model && ...\<close> returns a falsy \<open>model\<close> as it is.
\<close>

definition firstOf :: "'j list \<Rightarrow> 'j option" where
  "firstOf xs = (case xs of [] \<Rightarrow> None | x # rest \<Rightarrow> Some x)"

definition firstModel :: "'j Files \<Rightarrow> 'j list \<Rightarrow> 'j list \<Rightarrow> 'j option" where
  "firstModel files models lenses =
     (case firstOf models of
        None \<Rightarrow> firstOf lenses
      | Some m \<Rightarrow> if isTruthy files m then Some m else firstOf lenses)"

definition getNamespace ::
  "'j Files \<Rightarrow> 'j list \<Rightarrow> 'j list \<Rightarrow> js_error + 'j namespace_arg" where
  "getNamespace files models lenses =
     (case firstModel files models lenses of
        None \<Rightarrow> Inr NamespaceUndefined
      | Some model \<Rightarrow>
          if \<not> isTruthy files model then Inr (NamespaceFalsy model)
          else (case ModelsPack_getNamespace files model of
                  Inl err \<Rightarrow> Inl err
                | Inr None \<Rightarrow> Inr NamespaceUndefined
                | Inr (Some ns) \<Rightarrow> Inr (NamespaceString ns)))"

definition pack :: "'j Files \<Rightarrow> jsstring option \<Rightarrow> 'j list \<Rightarrow> 'j list \<Rightarrow> js_error + 'j" where
  "pack files namespace models lenses =
     (if models = [] \<and> lenses = []
      then Inl (JsError InvalidInput (js ''expected \"models\" and/or \"lenses\"'') None)
      else
        (case (case namespace of
                 None \<Rightarrow> getNamespace files models lenses
               | Some ns \<Rightarrow>
                   if ns = [] then getNamespace files models lenses
                   else Inr (NamespaceString ns)) of
           Inl err \<Rightarrow> Inl err
         | Inr namespace' \<Rightarrow> ModelsPack_pack files namespace' models lenses))"

text \<open>
  The deploy items are an object built key by key; a list of pairs keeps the order of
  insertion. A value is a parsed document, a text, \<open>null\<close> or \<open>undefined\<close>.
\<close>

datatype 'j part = PartUndefined | PartNull | PartText jsstring | PartJson 'j

definition jsonPart :: "'j option \<Rightarrow> 'j part" where
  "jsonPart v = (case v of None \<Rightarrow> PartUndefined | Some j \<Rightarrow> PartJson j)"

text \<open>
  \<^verbatim>\<open>
  public getDeployItems = (opts:any) => {
    opts = normalizeDeployOpts(opts)
    const parts:any = {}
    if (opts.style) {
      parts.style = read.style()
    }
    if (opts.terms) {
      // "null" for delete
      parts.terms = read.terms() || null
    }
    if (opts.models) {
      const models = read.models()
      const lenses = read.lenses()
      if (models.length || lenses.length) {
        parts.modelsPack = utils.pack({ models, lenses, namespace: this.namespace })
      }
    }
    if (opts.bot) {
      parts.bot = read.bot()
    }
    return parts
  }
  \<close>
  Each of the four steps gives the pairs it adds, or the error it throws; \<open>collect\<close> runs
  them in order and stops at the first error.
\<close>

definition styleItems :: "'j Files \<Rightarrow> jsobject \<Rightarrow> js_error + (jsstring \<times> 'j part) list" where
  "styleItems files opts =
     (if truthyProp opts (js ''style'') then
        (case read_style files of
           Inl err \<Rightarrow> Inl err
         | Inr v \<Rightarrow> Inr [(js ''style'', jsonPart v)])
      else Inr [])"

definition termsItems :: "'j Files \<Rightarrow> jsobject \<Rightarrow> js_error + (jsstring \<times> 'j part) list" where
  "termsItems files opts =
     (if truthyProp opts (js ''terms'') then
        (case read_terms files of
           Inl err \<Rightarrow> Inl err
         | Inr v \<Rightarrow>
             Inr [(js ''terms'',
                   case v of None \<Rightarrow> PartNull
                   | Some t \<Rightarrow> if t = [] then PartNull else PartText t)])
      else Inr [])"

definition modelsItems ::
  "jsstring option \<Rightarrow> 'j Files \<Rightarrow> jsobject \<Rightarrow> js_error + (jsstring \<times> 'j part) list" where
  "modelsItems namespace files opts =
     (if truthyProp opts (js ''models'') then
        (case read_models files of
           Inl err \<Rightarrow> Inl err
         | Inr models \<Rightarrow>
        (case read_lenses files of
           Inl err \<Rightarrow> Inl err
         | Inr lenses \<Rightarrow>
             if models \<noteq> [] \<or> lenses \<noteq> [] then
               (case pack files namespace models lenses of
                  Inl err \<Rightarrow> Inl err
                | Inr modelsPack \<Rightarrow> Inr [(js ''modelsPack'', PartJson modelsPack)])
             else Inr []))
      else Inr [])"

definition botItems :: "'j Files \<Rightarrow> jsobject \<Rightarrow> js_error + (jsstring \<times> 'j part) list" where
  "botItems files opts =
     (if truthyProp opts (js ''bot'') then
        (case read_bot files of
           Inl err \<Rightarrow> Inl err
         | Inr v \<Rightarrow> Inr [(js ''bot'', jsonPart v)])
      else Inr [])"

fun collect :: "(js_error + 'a list) list \<Rightarrow> js_error + 'a list" where
  "collect [] = Inr []"
| "collect (Inl err # steps) = Inl err"
| "collect (Inr xs # steps) =
     (case collect steps of Inl err \<Rightarrow> Inl err | Inr ys \<Rightarrow> Inr (xs @ ys))"

definition getDeployItems ::
  "jsstring option \<Rightarrow> 'j Files \<Rightarrow> jsobject \<Rightarrow> js_error + (jsstring \<times> 'j part) list" where
  "getDeployItems this_namespace files opts =
     (case normalizeDeployOpts opts (js ''deploy'') of
        Inl err \<Rightarrow> Inl err
      | Inr opts' \<Rightarrow>
          collect [styleItems files opts', termsItems files opts',
                   modelsItems this_namespace files opts', botItems files opts'])"

section \<open>Unwrapping a return value (utils.ts, conf.ts)\<close>

text \<open>
  An object as \<open>normalizeError\<close> sees it: whether it is an instance of \<open>Error\<close>, the
  constructor that made it and the argument that constructor got, its own properties that
  are not enumerable (\<open>hiddenProps\<close>), and its own enumerable properties in the order of
  their enumeration (\<open>ownProps\<close>). Property values are strings. A serialized error, parsed
  from JSON, is a plain object: not an instance of \<open>Error\<close>, made by \<open>Object\<close>, with enumerable
  properties only. The \<open>stack\<close> of an error object, whose text is the engine's, is left out
  of \<open>hiddenProps\<close> until it is assigned.

  The global object is a parameter. \<open>global name = None\<close> says that \<open>name in global\<close> is
  false. \<open>global name = Some construct\<close> says that the property exists, and \<open>construct a\<close>
  is the object that \<open>new global[name](a)\<close> evaluates to, or \<open>None\<close> when that expression throws
  (the property is no constructor, or the constructor throws).
\<close>

type_synonym props = "(jsstring \<times> jsstring) list"

datatype js_object =
  JsObject (instanceofError: bool) (constructorName: jsstring)
    (constructorArg: "jsstring option") (hiddenProps: props) (ownProps: props)

type_synonym global = "jsstring \<Rightarrow> (jsstring \<Rightarrow> js_object option) option"

text \<open>
  \<open>_.extend(target, source)\<close> goes through the enumerable properties of the source in order
  and assigns each to the target, with \<open>target[key] = value\<close>. What an assignment does is
  the target's own business: it may add a property, overwrite one, leave the target as it
  was (a property that is not writable), or throw (a setter, or the \<open>length\<close> of an array);
  so the assignment is a parameter, \<open>assign target key value\<close>, giving the target after
  the assignment or the error thrown. \<open>_.extend\<close> stops at the first assignment that
  throws, and nothing around it in \<open>normalizeError\<close> catches.
\<close>

type_synonym assignment = "js_object \<Rightarrow> jsstring \<Rightarrow> jsstring \<Rightarrow> js_error + js_object"

fun lodash_extend :: "assignment \<Rightarrow> js_object \<Rightarrow> props \<Rightarrow> js_error + js_object" where
  "lodash_extend assign target [] = Inr target"
| "lodash_extend assign target ((key, v) # source) =
     (case assign target key v of
        Inl err \<Rightarrow> Inl err
      | Inr target' \<Rightarrow> lodash_extend assign target' source)"

text \<open>
  \<^verbatim>\<open>
  const normalizeError = err => {
    if (err instanceof Error) return err
    const { name, message='unspecified' } = err
    let normalized
    if (name && name in global) {
      const ctor = global[name]
      try {
        normalized = new ctor(name)
      } catch (err) {}
    }
    if (!normalized) {
      normalized = new Error(message)
    }
    _.extend(normalized, err)
    return normalized
  }
  \<close>
  The same function stands in utils.ts and in conf.ts. \<open>lookedUp\<close> is the variable
  \<open>normalized\<close> after the first \<open>if\<close>; an object is always truthy, so \<open>!normalized\<close> holds
  exactly when nothing was constructed. \<open>messageOf\<close> is the destructured \<open>message\<close> with its
  default. \<open>newError message\<close> is the object \<open>new Error(message)\<close>: its \<open>message\<close> is an own
  property that is not enumerable.
\<close>

definition lookedUp :: "global \<Rightarrow> js_object \<Rightarrow> js_object option" where
  "lookedUp global err =
     (case map_of (ownProps err) (js ''name'') of
        None \<Rightarrow> None
      | Some name \<Rightarrow>
          if name = [] then None
          else (case global name of None \<Rightarrow> None | Some construct \<Rightarrow> construct name))"

definition messageOf :: "js_object \<Rightarrow> jsstring" where
  "messageOf err =
     (case map_of (ownProps err) (js ''message'') of None \<Rightarrow> js ''unspecified'' | Some m \<Rightarrow> m)"

definition newError :: "jsstring \<Rightarrow> js_object" where
  "newError msg = JsObject True (js ''Error'') (Some msg) [(js ''message'', msg)] []"

definition normalizeError :: "global \<Rightarrow> assignment \<Rightarrow> js_object \<Rightarrow> js_error + js_object" where
  "normalizeError global assign err =
     (if instanceofError err then Inr err
      else lodash_extend assign
             (case lookedUp global err of
                None \<Rightarrow> newError (messageOf err)
              | Some normalized \<Rightarrow> normalized)
             (ownProps err))"

text \<open>
  \<^verbatim>\<open>
  export const unwrapReturnValue = ret => {
    const { error, result } = ret
    if (error) {
      return { ...ret, error: normalizeError(error) }
    }
    if (result) {
      if (result.error || result.result) {
        return unwrapReturnValue(result)
      }
    }
    return ret
  }
  \<close>
  A return value is a primitive value or an object that may have an \<open>error\<close>, which is an
  object, and a \<open>result\<close>, which is a return value again. Destructuring \<open>null\<close> or
  \<open>undefined\<close> throws a TypeError; the recursive call only ever gets a truthy value. What
  \<open>normalizeError\<close> throws, \<open>unwrapReturnValue\<close> throws.
\<close>

datatype ret = Leaf jsval | Envelope (ret_error: "js_object option") (ret_result: "ret option")

fun truthy_ret :: "ret option \<Rightarrow> bool" where
  "truthy_ret None = False"
| "truthy_ret (Some (Leaf v)) = truthy_val v"
| "truthy_ret (Some (Envelope e r)) = True"

fun hasErrorOrResult :: "ret \<Rightarrow> bool" where
  "hasErrorOrResult (Leaf v) = False"
| "hasErrorOrResult (Envelope e r) = (e \<noteq> None \<or> truthy_ret r)"

fun unwrapReturnValue :: "global \<Rightarrow> assignment \<Rightarrow> ret \<Rightarrow> js_error + ret" where
  "unwrapReturnValue global assign (Leaf v) =
     (if v = JNull \<or> v = JUndefined
      then Inl (JsError TypeError (js ''Cannot destructure property error'') None)
      else Inr (Leaf v))"
| "unwrapReturnValue global assign (Envelope (Some err) r) =
     (case normalizeError global assign err of
        Inl thrown \<Rightarrow> Inl thrown
      | Inr normalized \<Rightarrow> Inr (Envelope (Some normalized) r))"
| "unwrapReturnValue global assign (Envelope None None) = Inr (Envelope None None)"
| "unwrapReturnValue global assign (Envelope None (Some r)) =
     (if truthy_ret (Some r) \<and> hasErrorOrResult r then unwrapReturnValue global assign r
      else Inr (Envelope None (Some r)))"

text \<open>
  For the examples: the standard error constructors of the global object, each making an
  instance of \<open>Error\<close> of its own class whose \<open>message\<close> is the argument. And the assignment
  on an object whose own properties are writable and that inherits no setter and no
  read-only property for the key: an own property that is not enumerable gets the new
  value and stays not enumerable, and so does the \<open>stack\<close> of an error object; an own
  enumerable property gets the new value; any other key becomes an own enumerable
  property, at the end.
\<close>

definition standardErrors :: global where
  "standardErrors name =
     (if name \<in> set [js ''Error'', js ''TypeError'', js ''RangeError'', js ''SyntaxError'',
                      js ''ReferenceError'', js ''EvalError'', js ''URIError'']
      then Some (\<lambda>a. Some (JsObject True name (Some a) [(js ''message'', a)] []))
      else None)"

fun setProp :: "jsstring \<Rightarrow> jsstring \<Rightarrow> props \<Rightarrow> props" where
  "setProp k v [] = [(k, v)]"
| "setProp k v ((k', v') # ps) = (if k' = k then (k, v) # ps else (k', v') # setProp k v ps)"

definition assignProperty :: assignment where
  "assignProperty target key v =
     Inr (if key \<in> fst ` set (hiddenProps target)
             \<or> (instanceofError target \<and> key = js ''stack'')
          then JsObject (instanceofError target) (constructorName target)
                 (constructorArg target) (setProp key v (hiddenProps target)) (ownProps target)
          else JsObject (instanceofError target) (constructorName target)
                 (constructorArg target) (hiddenProps target) (setProp key v (ownProps target)))"

section \<open>Nested stacks (utils.ts)\<close>

text \<open>
  A template, as far as this code reads it: its \<open>Resources\<close>, the logical ids in order,
  each with its \<open>DeletionPolicy\<close> when it has one. The provider is given by what it answers
  for each stack: the parsed template of \<open>getStackTemplate\<close> and the complete list that
  \<open>listStackResources\<close> returns once all pages are read. The calls are taken to succeed; a
  rejected call would end the traversal with that error.
\<close>

record Template =
  Resources :: "(jsstring \<times> jsstring option) list"

record Cloud =
  templateOf :: "jsstring \<Rightarrow> Template"
  resourcesOf :: "jsstring \<Rightarrow> StackResourceSummary list"

text \<open>
  \<^verbatim>\<open>
  export const listStackResourcesByType = (type, cloudformation, stackName) => {
    return listStackResources(cloudformation, stackName, ({ ResourceType }) => type === ResourceType)
  }
  export const listSubstacks = (cloudformation, stackName) =>
    listStackResourcesByType('AWS::CloudFormation::Stack', cloudformation, stackName)
  \<close>
\<close>

definition listStackResourcesByType ::
  "jsstring \<Rightarrow> Cloud \<Rightarrow> jsstring \<Rightarrow> StackResourceSummary list" where
  "listStackResourcesByType type cloudformation stackName =
     filter (\<lambda>r. type = ResourceType r) (resourcesOf cloudformation stackName)"

definition listSubstacks :: "Cloud \<Rightarrow> jsstring \<Rightarrow> StackResourceSummary list" where
  "listSubstacks cloudformation stackName =
     listStackResourcesByType (js ''AWS::CloudFormation::Stack'') cloudformation stackName"

text \<open>
  \<^verbatim>\<open>
  export const getStackTemplates = async (cloudformation, stackId) => {
    const main = await getStackTemplate({ cloudformation, stackId })
    const nested = await listSubstacks(cloudformation, stackId)
    if (!nested.length) return [main]
    const nestedTemplates = _.flatten(await Promise.all(
      nested.map(n => getStackTemplates(cloudformation, n.PhysicalResourceId))))
    return [main].concat(nestedTemplates)
  }
  \<close>
  The source has no counter and no set of visited stacks. The first argument of the model
  is the number of nested activations allowed to a run, and the value is \<open>None\<close> when the
  run needs more: a traversal that returns is one that has a value for some number, and
  one that never returns has \<open>None\<close> for every number.
\<close>

fun getStackTemplates :: "nat \<Rightarrow> Cloud \<Rightarrow> jsstring \<Rightarrow> Template list option" where
  "getStackTemplates 0 cloudformation stackId = None"
| "getStackTemplates (Suc depth) cloudformation stackId =
     (let main = templateOf cloudformation stackId;
          nested = listSubstacks cloudformation stackId
      in if nested = [] then Some [main]
         else (case those (map (\<lambda>n. getStackTemplates depth cloudformation (PhysicalResourceId n))
                             nested) of
                 None \<Rightarrow> None
               | Some nestedTemplates \<Rightarrow> Some ([main] @ concat nestedTemplates)))"

text \<open>
  The earlier utils.ts, kept in the repository, enumerates the retained resources the
  same way:
  \<^verbatim>\<open>
  const isRetained = ({ DeletionPolicy }) => DeletionPolicy === 'Retain'
  export const listRetainedResources = async (aws, stackName) => {
    const [template, resources] = await Promise.all([
      getStackTemplate(aws, stackName),
      listStackResources(aws, stackName),
    ])
    const retained = Object.keys(template.Resources)
      .filter(logicalId => isRetained(template.Resources[logicalId]))
      .map(logicalId => resources.find(r => r.LogicalResourceId === logicalId))
      // some resources may be created conditionally (created or passed in parameters)
      .filter(_.identity)
    const nestedStacks = resources.filter(r => r.ResourceType === 'AWS::CloudFormation::Stack')
    const nestedRetained = _.flatten(
      await Promise.all(nestedStacks.map(r => listRetainedResources(aws, r.PhysicalResourceId)))
    )
    return retained.concat(nestedRetained)
  }
  \<close>
\<close>

definition isRetained :: "jsstring option \<Rightarrow> bool" where
  "isRetained DeletionPolicy = (DeletionPolicy = Some (js ''Retain''))"

definition retainedOf :: "Template \<Rightarrow> StackResourceSummary list \<Rightarrow> StackResourceSummary list" where
  "retainedOf template resources =
     List.map_filter (\<lambda>logicalId. find (\<lambda>r. LogicalResourceId r = logicalId) resources)
       (map fst (filter (\<lambda>(logicalId, policy). isRetained policy) (Resources template)))"

fun listRetainedResources :: "nat \<Rightarrow> Cloud \<Rightarrow> jsstring \<Rightarrow> StackResourceSummary list option" where
  "listRetainedResources 0 aws stackName = None"
| "listRetainedResources (Suc depth) aws stackName =
     (let template = templateOf aws stackName;
          resources = resourcesOf aws stackName;
          retained = retainedOf template resources;
          nestedStacks = filter (\<lambda>r. ResourceType r = js ''AWS::CloudFormation::Stack'') resources
      in case those (map (\<lambda>r. listRetainedResources depth aws (PhysicalResourceId r))
                       nestedStacks) of
           None \<Rightarrow> None
         | Some nestedRetained \<Rightarrow> Some (retained @ concat nestedRetained))"

text \<open>
  \<open>nestedWithin d\<close>: below the stack, every chain of nested stacks, the stack included, has
  at most \<open>d\<close> stacks.
\<close>

fun nestedWithin :: "nat \<Rightarrow> Cloud \<Rightarrow> jsstring \<Rightarrow> bool" where
  "nestedWithin 0 cloudformation stackId = False"
| "nestedWithin (Suc d) cloudformation stackId =
     list_all (\<lambda>n. nestedWithin d cloudformation (PhysicalResourceId n))
       (listSubstacks cloudformation stackId)"

section \<open>Properties of the string operations\<close>

lemma js_length [simp]: "length (js s) = length s"
  by (simp add: js_def)

lemma startsWith_prefix: "startsWith s t \<longleftrightarrow> prefix t s"
proof
  assume "startsWith s t"
  then have "s = t @ drop (length t) s"
    unfolding startsWith_def using append_take_drop_id[of "length t" s] by simp
  then show "prefix t s" by (metis prefixI)
next
  assume "prefix t s"
  then show "startsWith s t" by (auto simp: startsWith_def prefix_def)
qed

lemma endsWith_suffix: "endsWith s t \<longleftrightarrow> suffix t s"
proof
  assume "endsWith s t"
  then have "s = take (length s - length t) s @ t"
    unfolding endsWith_def using append_take_drop_id[of "length s - length t" s] by simp
  then show "suffix t s" by (metis suffixI)
next
  assume "suffix t s"
  then show "endsWith s t" by (auto simp: endsWith_def suffix_def)
qed

lemma js_slice_take: "0 \<le> n \<Longrightarrow> js_slice s 0 n = take (nat n) s"
  by (simp add: js_slice_def Let_def min_def)

section \<open>The companion stack name\<close>

lemma matchStageTail_Some:
  assumes "matchStageTail r = Some stage"
  shows "r = js ''-ltd-'' @ stage \<and> stage \<noteq> [] \<and> list_all isAsciiLetter stage"
proof -
  from assms have sw: "startsWith r (js ''-ltd-'')" and st: "stage = drop 5 r"
    and ne: "drop 5 r \<noteq> []" and al: "list_all isAsciiLetter (drop 5 r)"
    unfolding matchStageTail_def by (simp_all split: if_splits)
  have len: "length (js ''-ltd-'') = 5" by simp
  from sw have "take 5 r = js ''-ltd-''"
    unfolding startsWith_def len .
  then have "r = js ''-ltd-'' @ drop 5 r"
    using append_take_drop_id[of 5 r] by simp
  with st ne al show ?thesis by simp
qed

lemma matchLazyGroup_Some:
  "matchLazyGroup grp r = Some (org, stage) \<Longrightarrow>
     \<exists>x. org = grp @ x \<and> r = x @ js ''-ltd-'' @ stage \<and> stage \<noteq> []
        \<and> list_all isAsciiLetter stage \<and> list_all (\<lambda>c. \<not> isLineTerminator c) x"
proof (induction r arbitrary: grp)
  case Nil
  then have "matchStageTail [] = Some stage" and "org = grp"
    by (simp_all split: option.splits)
  with matchStageTail_Some[of "[]" stage] show ?case by blast
next
  case (Cons c r)
  show ?case
  proof (cases "matchStageTail (c # r)")
    case (Some st)
    with Cons.prems have "org = grp" "st = stage" by simp_all
    with Some matchStageTail_Some[of "c # r" stage] show ?thesis by simp
  next
    case None
    with Cons.prems have nl: "\<not> isLineTerminator c"
      and rec: "matchLazyGroup (grp @ [c]) r = Some (org, stage)"
      by (simp_all split: if_splits)
    from Cons.IH[OF rec] obtain x where x: "org = (grp @ [c]) @ x"
      "r = x @ js ''-ltd-'' @ stage" "stage \<noteq> []" "list_all isAsciiLetter stage"
      "list_all (\<lambda>c. \<not> isLineTerminator c) x" by blast
    show ?thesis
    proof (intro exI[of _ "c # x"] conjI)
      show "org = grp @ c # x" using x(1) by simp
      show "c # r = (c # x) @ js ''-ltd-'' @ stage" using x(2) by simp
      show "stage \<noteq> []" by (rule x(3))
      show "list_all isAsciiLetter stage" by (rule x(4))
      show "list_all (\<lambda>c. \<not> isLineTerminator c) (c # x)" using nl x(5) by simp
    qed
  qed
qed

lemma MY_CLOUD_STACK_NAME_REGEX_Some:
  assumes "MY_CLOUD_STACK_NAME_REGEX name = Some (org, stage)"
  shows "name = js ''tdl-'' @ org @ js ''-ltd-'' @ stage \<and> stage \<noteq> []
        \<and> list_all isAsciiLetter stage \<and> list_all (\<lambda>c. \<not> isLineTerminator c) org"
proof -
  from assms have sw: "startsWith name (js ''tdl-'')"
    and m: "matchLazyGroup [] (drop 4 name) = Some (org, stage)"
    unfolding MY_CLOUD_STACK_NAME_REGEX_def by (simp_all split: if_splits)
  have len: "length (js ''tdl-'') = 4" by simp
  from sw have "take 4 name = js ''tdl-''"
    unfolding startsWith_def len .
  then have "name = js ''tdl-'' @ drop 4 name"
    using append_take_drop_id[of 4 name] by simp
  with matchLazyGroup_Some[OF m] show ?thesis by auto
qed

lemma hyphen_not_letter: "\<not> isAsciiLetter 0x2D"
  by (simp add: isAsciiLetter_def)

lemma ltd_nth: "(js ''-ltd-'' @ stage) ! 4 = 0x2D"
  by (simp add: js_def)

lemma matchStageTail_inner_None:
  "matchStageTail (c # x @ js ''-ltd-'' @ stage) = None"
proof (rule ccontr)
  assume "matchStageTail (c # x @ js ''-ltd-'' @ stage) \<noteq> None"
  then obtain st where "matchStageTail (c # x @ js ''-ltd-'' @ stage) = Some st" by auto
  from matchStageTail_Some[OF this]
  have w: "c # x @ js ''-ltd-'' @ stage = js ''-ltd-'' @ st" and l: "list_all isAsciiLetter st"
    by simp_all
  from w have "length (c # x @ js ''-ltd-'' @ stage) = length (js ''-ltd-'' @ st)" by simp
  then have len: "length st = Suc (length x + length stage)" by simp
  have "(c # x @ js ''-ltd-'' @ stage) ! (length x + 5) = (js ''-ltd-'' @ stage) ! 4"
    by (simp add: nth_Cons' nth_append)
  then have "(js ''-ltd-'' @ st) ! (length x + 5) = 0x2D" using w ltd_nth by simp
  moreover have "(js ''-ltd-'' @ st) ! (length x + 5) = st ! length x"
    by (simp add: nth_append)
  ultimately have "st ! length x = 0x2D" by simp
  moreover from len have "length x < length st" by simp
  ultimately have "0x2D \<in> set st" by (metis nth_mem)
  with l hyphen_not_letter show False by (auto simp: list_all_iff)
qed

lemma matchStageTail_exact:
  "stage \<noteq> [] \<Longrightarrow> list_all isAsciiLetter stage \<Longrightarrow> matchStageTail (js ''-ltd-'' @ stage) = Some stage"
  by (simp add: matchStageTail_def startsWith_def)

lemma matchLazyGroup_complete:
  assumes "stage \<noteq> []" "list_all isAsciiLetter stage" "list_all (\<lambda>c. \<not> isLineTerminator c) org"
  shows "matchLazyGroup grp (org @ js ''-ltd-'' @ stage) = Some (grp @ org, stage)"
  using assms(3)
proof (induction org arbitrary: grp)
  case Nil
  have "js ''-ltd-'' @ stage = 0x2D # (tl (js ''-ltd-'') @ stage)" by (simp add: js_def)
  then show ?case using matchStageTail_exact[OF assms(1,2)]
    by (metis append_Nil append_Nil2 matchLazyGroup.simps(2) option.simps(5))
next
  case (Cons c org)
  then show ?case by (simp add: matchStageTail_inner_None)
qed

lemma MY_CLOUD_STACK_NAME_REGEX_complete:
  assumes "stage \<noteq> []" "list_all isAsciiLetter stage" "list_all (\<lambda>c. \<not> isLineTerminator c) org"
  shows "MY_CLOUD_STACK_NAME_REGEX (js ''tdl-'' @ org @ js ''-ltd-'' @ stage) = Some (org, stage)"
  using matchLazyGroup_complete[OF assms, of "[]"]
  by (simp add: MY_CLOUD_STACK_NAME_REGEX_def startsWith_def)

lemma isMyCloudStackName_iff:
  "isMyCloudStackName name \<longleftrightarrow>
     (\<exists>org stage. name = js ''tdl-'' @ org @ js ''-ltd-'' @ stage \<and> stage \<noteq> []
        \<and> list_all isAsciiLetter stage \<and> list_all (\<lambda>c. \<not> isLineTerminator c) org)"
proof
  assume "isMyCloudStackName name"
  then obtain org stage where "MY_CLOUD_STACK_NAME_REGEX name = Some (org, stage)"
    unfolding isMyCloudStackName_def by auto
  from MY_CLOUD_STACK_NAME_REGEX_Some[OF this] show
    "\<exists>org stage. name = js ''tdl-'' @ org @ js ''-ltd-'' @ stage \<and> stage \<noteq> []
        \<and> list_all isAsciiLetter stage \<and> list_all (\<lambda>c. \<not> isLineTerminator c) org"
    by blast
next
  assume "\<exists>org stage. name = js ''tdl-'' @ org @ js ''-ltd-'' @ stage \<and> stage \<noteq> []
        \<and> list_all isAsciiLetter stage \<and> list_all (\<lambda>c. \<not> isLineTerminator c) org"
  then show "isMyCloudStackName name"
    unfolding isMyCloudStackName_def
    using MY_CLOUD_STACK_NAME_REGEX_complete by auto
qed


lemma shortenString_14:
  "shortenString sha256 s 14 =
     Inr (if length s \<le> 14 then s else take 8 s @ take 6 (sha256 s))"
  by (simp add: shortenString_def Let_def js_slice_take)

text \<open>
  C9. For every stack name that matches the naming convention \<open>tdl-<org>-ltd-<stage>\<close>
  (by \<open>isMyCloudStackName_iff\<close> these are the names of this form with a non-empty
  \<open><stage>\<close> of ASCII letters and an \<open><org>\<close> free of line terminators),
  \<open>getServicesStackName\<close> returns a name of at most 20 code units that ends with
  \<open>-srvcs\<close>. The part before \<open>-srvcs\<close> is \<open><org>\<close> shortened to at most 14 code units:
  \<open><org>\<close> itself when it has at most 14, and otherwise its first 8 code units followed
  by the first 6 of the hexadecimal SHA-256 digest of \<open><org>\<close>, 14 in all. The result is a
  function of the name and of the digest function alone, so equal inputs give equal
  outputs. The hexadecimal digest has 64 characters.
\<close>

theorem getServicesStackName_spec:
  assumes m: "isMyCloudStackName name" and sha: "\<forall>s. length (sha256 s) = 64"
  shows "\<exists>org stage r.
           name = js ''tdl-'' @ org @ js ''-ltd-'' @ stage
         \<and> parseMyCloudStackName name = Inr (org, stage)
         \<and> getServicesStackName sha256 name = Inr r
         \<and> r = (if length org \<le> 14 then org else take 8 org @ take 6 (sha256 org))
               @ js ''-srvcs''
         \<and> length r \<le> 20
         \<and> endsWith r (js ''-srvcs'')
         \<and> (14 < length org \<longrightarrow> length r = 20)"
proof -
  from m obtain org stage where re: "MY_CLOUD_STACK_NAME_REGEX name = Some (org, stage)"
    unfolding isMyCloudStackName_def by auto
  define short where
    "short = (if length org \<le> 14 then org else take 8 org @ take 6 (sha256 org))"
  define r where "r = short @ js ''-srvcs''"
  have p: "parseMyCloudStackName name = Inr (org, stage)"
    by (simp add: parseMyCloudStackName_def re)
  have g: "getServicesStackName sha256 name = Inr r"
    by (simp add: getServicesStackName_def p shortenString_14 r_def short_def)
  have hl: "length (take 6 (sha256 org)) = 6" using sha by simp
  have sl: "length short \<le> 14" unfolding short_def using hl by simp
  have sl': "14 < length org \<Longrightarrow> length short = 14" unfolding short_def using hl by simp
  have l1: "length r \<le> 20" unfolding r_def using sl by simp
  have l2: "14 < length org \<longrightarrow> length r = 20" unfolding r_def using sl' by simp
  have e: "endsWith r (js ''-srvcs'')"
    unfolding endsWith_suffix r_def by (rule suffixI) simp
  from MY_CLOUD_STACK_NAME_REGEX_Some[OF re]
  have n: "name = js ''tdl-'' @ org @ js ''-ltd-'' @ stage" by simp
  from n p g l1 l2 e show ?thesis unfolding r_def short_def by blast
qed

theorem getServicesStackName_spec_witness:
  "isMyCloudStackName (js ''tdl-acmeinternationalbank-ltd-dev'')
   \<and> (\<forall>s. length (replicate 64 (0x30 :: 16 word)) = 64)
   \<and> (\<exists>org stage r.
           js ''tdl-acmeinternationalbank-ltd-dev'' = js ''tdl-'' @ org @ js ''-ltd-'' @ stage
         \<and> parseMyCloudStackName (js ''tdl-acmeinternationalbank-ltd-dev'') = Inr (org, stage)
         \<and> getServicesStackName (\<lambda>s. replicate 64 0x30)
              (js ''tdl-acmeinternationalbank-ltd-dev'') = Inr r
         \<and> r = (if length org \<le> 14 then org else take 8 org @ take 6 (replicate 64 0x30))
               @ js ''-srvcs''
         \<and> length r \<le> 20
         \<and> endsWith r (js ''-srvcs'')
         \<and> (14 < length org \<longrightarrow> length r = 20))"
proof -
  have h1: "isMyCloudStackName (js ''tdl-acmeinternationalbank-ltd-dev'')"
    by (simp add: isMyCloudStackName_def MY_CLOUD_STACK_NAME_REGEX_def startsWith_def js_def
        matchStageTail_def isAsciiLetter_def isLineTerminator_def)
  have h2: "\<forall>s::jsstring. length ((\<lambda>s. replicate 64 (0x30 :: 16 word)) s) = 64" by simp
  from getServicesStackName_spec[OF h1 h2] h1 show ?thesis by simp
qed

section \<open>Long function names\<close>

text \<open>
  C10. \<open>getLongFunctionName\<close> is meant to leave an already expanded name alone, but it
  tests \<open>lastIndexOf(stackName) === 0\<close>, which fails as soon as the stack name occurs a
  second time further right. With the stack name \<open>tradle\<close>, the short name
  \<open>sync-tradle\<close> expands to \<open>tradle-sync-tradle\<close>; this name begins with the stack name,
  and a second application still prefixes it again.
\<close>

theorem getLongFunctionName_double_prefix:
  "getLongFunctionName (js ''tradle'') (js ''sync-tradle'') = js ''tradle-sync-tradle''
   \<and> startsWith (js ''tradle-sync-tradle'') (js ''tradle'')
   \<and> getLongFunctionName (js ''tradle'') (js ''tradle-sync-tradle'')
       = js ''tradle-tradle-sync-tradle''"
  by (simp add: getLongFunctionName_def lastIndexOf_def occursAt_def startsWith_def js_def)

section \<open>Paginated listings\<close>

lemma listStackResources_loop_pages:
  assumes "\<forall>p \<in> set pages. truthy (NextToken p)" "\<not> truthy (NextToken lastp)"
  shows "listStackResources_loop nm flt tok acc (map Inr pages @ Inr lastp # rest) =
           (Some (Inr (acc @ concat (map (\<lambda>p. filter flt (Summaries p)) (pages @ [lastp])))),
            map (Pair nm) (tok # map NextToken pages), rest)"
  using assms by (induction pages arbitrary: tok acc) simp_all

lemma listStacks_loop_pages:
  assumes "\<forall>p \<in> set pages. truthy (NextToken p)" "\<not> truthy (NextToken lastp)"
  shows "listStacks_loop flt tok acc (map Inr pages @ Inr lastp # rest) =
           (Some (Inr (acc @ concat (map (\<lambda>p. map toStackInfo (filter flt (Summaries p)))
                                      (pages @ [lastp])))),
            map (Pair StackStatusFilter) (tok # map NextToken pages), rest)"
  using assms by (induction pages arbitrary: tok acc) simp_all

lemma listStackResources_loop_more:
  "\<forall>p \<in> set pages. truthy (NextToken p) \<Longrightarrow>
   fst (listStackResources_loop nm flt tok acc (map Inr pages)) = None"
  by (induction pages arbitrary: tok acc) (simp_all add: split_def Let_def)

lemma listStacks_loop_more:
  "\<forall>p \<in> set pages. truthy (NextToken p) \<Longrightarrow>
   fst (listStacks_loop flt tok acc (map Inr pages)) = None"
  by (induction pages arbitrary: tok acc) (simp_all add: split_def Let_def)

text \<open>
  C8. Let the provider serve N pages in a row, every page but the last with a
  continuation token and the last with none (absent or empty). Then the listing of stack
  resources, and likewise the listing of stacks, returns exactly the filtered items of
  all N pages, concatenated in page order; it sends N requests, the first without a token
  and every later one with the token of the page before; and it stops there, leaving
  whatever the provider would have answered next unused. As long as every page served
  carries a token the listing has not returned: it asks for another page.
\<close>

theorem paginated_listing:
  assumes "\<forall>p \<in> set rpages. truthy (NextToken p)" "\<not> truthy (NextToken rlast)"
    and "\<forall>p \<in> set spages. truthy (NextToken p)" "\<not> truthy (NextToken slast)"
  shows "listStackResources (map Inr rpages @ Inr rlast # rrest) nm rflt =
           (Some (Inr (concat (map (\<lambda>p. filter rflt (Summaries p)) (rpages @ [rlast])))),
            map (Pair nm) (None # map NextToken rpages), rrest)
       \<and> listStacks (map Inr spages @ Inr slast # srest) sflt =
           (Some (Inr (concat (map (\<lambda>p. map toStackInfo (filter sflt (Summaries p)))
                                (spages @ [slast])))),
            map (Pair StackStatusFilter) (None # map NextToken spages), srest)
       \<and> fst (listStackResources (map Inr rpages) nm rflt) = None
       \<and> fst (listStacks (map Inr spages) sflt) = None"
proof (intro conjI)
  show "listStackResources (map Inr rpages @ Inr rlast # rrest) nm rflt =
           (Some (Inr (concat (map (\<lambda>p. filter rflt (Summaries p)) (rpages @ [rlast])))),
            map (Pair nm) (None # map NextToken rpages), rrest)"
    unfolding listStackResources_def
    using listStackResources_loop_pages[OF assms(1,2), of nm rflt None "[]" rrest] by simp
  show "listStacks (map Inr spages @ Inr slast # srest) sflt =
           (Some (Inr (concat (map (\<lambda>p. map toStackInfo (filter sflt (Summaries p)))
                                (spages @ [slast])))),
            map (Pair StackStatusFilter) (None # map NextToken spages), srest)"
    unfolding listStacks_def
    using listStacks_loop_pages[OF assms(3,4), of sflt None "[]" srest] by simp
  show "fst (listStackResources (map Inr rpages) nm rflt) = None"
    unfolding listStackResources_def by (rule listStackResources_loop_more[OF assms(1)])
  show "fst (listStacks (map Inr spages) sflt) = None"
    unfolding listStacks_def by (rule listStacks_loop_more[OF assms(3)])
qed

theorem paginated_listing_witness:
  "truthy (NextToken \<lparr>Summaries = [\<lparr>LogicalResourceId = js ''Bucket'', PhysicalResourceId = js ''b-1'',
                                 ResourceType = js ''AWS::S3::Bucket''\<rparr>],
                  NextToken = Some (js ''t1'')\<rparr>)
   \<and> \<not> truthy (NextToken \<lparr>Summaries = [\<lparr>LogicalResourceId = js ''Table'', PhysicalResourceId = js ''t-1'',
                                 ResourceType = js ''AWS::DynamoDB::Table''\<rparr>],
                  NextToken = None\<rparr>)
   \<and> truthy (NextToken \<lparr>Summaries = [\<lparr>StackId = js ''arn:1'', StackName = js ''tdl-a-ltd-dev'',
                                 StackStatus = js ''UPDATE_COMPLETE''\<rparr>],
                  NextToken = Some (js ''s1'')\<rparr>)
   \<and> \<not> truthy (NextToken \<lparr>Summaries = [\<lparr>StackId = js ''arn:2'', StackName = js ''tdl-b-ltd-dev'',
                                 StackStatus = js ''CREATE_COMPLETE''\<rparr>],
                  NextToken = Some []\<rparr>)
   \<and> listStackResources
        [Inr \<lparr>Summaries = [\<lparr>LogicalResourceId = js ''Bucket'', PhysicalResourceId = js ''b-1'',
                                 ResourceType = js ''AWS::S3::Bucket''\<rparr>],
                  NextToken = Some (js ''t1'')\<rparr>,
         Inr \<lparr>Summaries = [\<lparr>LogicalResourceId = js ''Table'', PhysicalResourceId = js ''t-1'',
                                 ResourceType = js ''AWS::DynamoDB::Table''\<rparr>],
                  NextToken = None\<rparr>]
        (js ''tdl-a-ltd-dev'') acceptAll
      = (Some (Inr [\<lparr>LogicalResourceId = js ''Bucket'', PhysicalResourceId = js ''b-1'',
                                 ResourceType = js ''AWS::S3::Bucket''\<rparr>,
                    \<lparr>LogicalResourceId = js ''Table'', PhysicalResourceId = js ''t-1'',
                                 ResourceType = js ''AWS::DynamoDB::Table''\<rparr>]),
         [(js ''tdl-a-ltd-dev'', None), (js ''tdl-a-ltd-dev'', Some (js ''t1''))], [])
   \<and> listStacks
        [Inr \<lparr>Summaries = [\<lparr>StackId = js ''arn:1'', StackName = js ''tdl-a-ltd-dev'',
                                 StackStatus = js ''UPDATE_COMPLETE''\<rparr>],
                  NextToken = Some (js ''s1'')\<rparr>,
         Inr \<lparr>Summaries = [\<lparr>StackId = js ''arn:2'', StackName = js ''tdl-b-ltd-dev'',
                                 StackStatus = js ''CREATE_COMPLETE''\<rparr>],
                  NextToken = Some []\<rparr>]
        acceptAll
      = (Some (Inr [\<lparr>id' = js ''arn:1'', name' = js ''tdl-a-ltd-dev''\<rparr>,
                    \<lparr>id' = js ''arn:2'', name' = js ''tdl-b-ltd-dev''\<rparr>]),
         [(StackStatusFilter, None), (StackStatusFilter, Some (js ''s1''))], [])"
proof -
  let ?r1 = "\<lparr>Summaries = [\<lparr>LogicalResourceId = js ''Bucket'', PhysicalResourceId = js ''b-1'',
                                 ResourceType = js ''AWS::S3::Bucket''\<rparr>],
                  NextToken = Some (js ''t1'')\<rparr>"
  let ?r2 = "\<lparr>Summaries = [\<lparr>LogicalResourceId = js ''Table'', PhysicalResourceId = js ''t-1'',
                                 ResourceType = js ''AWS::DynamoDB::Table''\<rparr>],
                  NextToken = None\<rparr>"
  let ?s1 = "\<lparr>Summaries = [\<lparr>StackId = js ''arn:1'', StackName = js ''tdl-a-ltd-dev'',
                                 StackStatus = js ''UPDATE_COMPLETE''\<rparr>],
                  NextToken = Some (js ''s1'')\<rparr>"
  let ?s2 = "\<lparr>Summaries = [\<lparr>StackId = js ''arn:2'', StackName = js ''tdl-b-ltd-dev'',
                                 StackStatus = js ''CREATE_COMPLETE''\<rparr>],
                  NextToken = Some []\<rparr>"
  have h1: "\<forall>p \<in> set [?r1]. truthy (NextToken p)" by (simp add: truthy_def js_def)
  have h2: "\<not> truthy (NextToken ?r2)" by (simp add: truthy_def)
  have h3: "\<forall>p \<in> set [?s1]. truthy (NextToken p)" by (simp add: truthy_def js_def)
  have h4: "\<not> truthy (NextToken ?s2)" by (simp add: truthy_def)
  from paginated_listing[OF h1 h2 h3 h4, of "[]" "js ''tdl-a-ltd-dev''" acceptAll "[]" acceptAll]
    h1 h2 h3 h4
  show ?thesis by (simp add: acceptAll_def toStackInfo_def)
qed

section \<open>Resolving a stack name\<close>

lemma listStacks_loop_from:
  "listStacks_loop flt tok acc script = (Some (Inr infos), reqs, rest) \<Longrightarrow> i \<in> set infos \<Longrightarrow>
   i \<in> set acc \<or> (\<exists>out s. Inr out \<in> set script \<and> s \<in> set (Summaries out) \<and> flt s
                        \<and> i = toStackInfo s)"
proof (induction flt tok acc script arbitrary: reqs rest rule: listStacks_loop.induct)
  case (1 flt tok stackInfos)
  then show ?case by simp
next
  case (2 flt tok stackInfos err script)
  then show ?case by simp
next
  case (3 flt tok stackInfos out script)
  define acc' where "acc' = stackInfos @ map toStackInfo (filter flt (Summaries out))"
  have here: "i \<in> set acc' \<Longrightarrow> ?case" unfolding acc'_def by auto
  show ?case
  proof (cases "truthy (NextToken out)")
    case False
    with "3.prems" have "infos = acc'" by (simp add: acc'_def)
    with "3.prems"(2) here show ?thesis by simp
  next
    case True
    with "3.prems"(1) obtain reqs' where
      rec: "listStacks_loop flt (NextToken out) acc' script = (Some (Inr infos), reqs', rest)"
      by (auto simp: acc'_def split: prod.splits)
    from "3.IH"[OF refl refl refl True rec[unfolded acc'_def] "3.prems"(2)]
    have "i \<in> set acc' \<or> (\<exists>out s. Inr out \<in> set script \<and> s \<in> set (Summaries out) \<and> flt s
                        \<and> i = toStackInfo s)" unfolding acc'_def .
    with here show ?thesis by auto
  qed
qed

lemma endsWith_last: "endsWith s t \<Longrightarrow> t \<noteq> [] \<Longrightarrow> last s = last t"
  unfolding endsWith_suffix suffix_def by auto

lemma complete_not_in_progress:
  "endsWith s (js ''_COMPLETE'') \<Longrightarrow> \<not> endsWith s (js ''_IN_PROGRESS'')"
proof
  assume a: "endsWith s (js ''_COMPLETE'')" and b: "endsWith s (js ''_IN_PROGRESS'')"
  have "last s = last (js ''_COMPLETE'')" by (rule endsWith_last[OF a]) (simp add: js_def)
  moreover have "last s = last (js ''_IN_PROGRESS'')" by (rule endsWith_last[OF b]) (simp add: js_def)
  ultimately show False by (simp add: js_def)
qed

text \<open>
  C7. A status is updateable exactly when it ends with \<open>_COMPLETE\<close> and does not begin
  with \<open>DELETE_\<close>. Whenever \<open>getStackId\<close> returns an id, some stack summary served by the
  provider has that id, has the name asked for and has an updateable status; its status
  neither begins with \<open>DELETE_\<close> nor ends with \<open>_IN_PROGRESS\<close>.
\<close>

theorem getStackId_updateable:
  "(\<forall>status. isUpdateableStatus status \<longleftrightarrow>
       suffix (js ''_COMPLETE'') status \<and> \<not> prefix (js ''DELETE_'') status)
   \<and> (\<forall>cloudformation stackName sid reqs rest.
        getStackId cloudformation stackName = (Some (Inr (Some sid)), reqs, rest) \<longrightarrow>
        (\<exists>out s. Inr out \<in> set cloudformation \<and> s \<in> set (Summaries out)
           \<and> StackId s = sid \<and> StackName s = stackName
           \<and> isUpdateableStatus (StackStatus s)
           \<and> \<not> startsWith (StackStatus s) (js ''DELETE_'')
           \<and> \<not> endsWith (StackStatus s) (js ''_IN_PROGRESS'')))"
proof (intro conjI allI impI)
  fix status
  show "isUpdateableStatus status \<longleftrightarrow>
       suffix (js ''_COMPLETE'') status \<and> \<not> prefix (js ''DELETE_'') status"
    by (simp add: isUpdateableStatus_def startsWith_prefix endsWith_suffix)
next
  fix cloudformation stackName sid reqs rest
  assume g: "getStackId cloudformation stackName = (Some (Inr (Some sid)), reqs, rest)"
  let ?flt = "\<lambda>s. StackName s = stackName \<and> isUpdateableStatus (StackStatus s)"
  from g obtain i stacks where
    l: "listStacks_loop ?flt None [] cloudformation = (Some (Inr (i # stacks)), reqs, rest)"
    and sid: "sid = id' i"
    by (auto simp: getStackId_def listStacks_def split: prod.splits option.splits sum.splits list.splits)
  from listStacks_loop_from[OF l, of i] obtain out s where
    s: "Inr out \<in> set cloudformation" "s \<in> set (Summaries out)" "?flt s" "i = toStackInfo s"
    by auto
  from s(3) have u: "isUpdateableStatus (StackStatus s)" by simp
  then have c: "endsWith (StackStatus s) (js ''_COMPLETE'')"
    and d: "\<not> startsWith (StackStatus s) (js ''DELETE_'')"
    by (simp_all add: isUpdateableStatus_def)
  from s sid u d complete_not_in_progress[OF c]
  show "\<exists>out s. Inr out \<in> set cloudformation \<and> s \<in> set (Summaries out)
           \<and> StackId s = sid \<and> StackName s = stackName
           \<and> isUpdateableStatus (StackStatus s)
           \<and> \<not> startsWith (StackStatus s) (js ''DELETE_'')
           \<and> \<not> endsWith (StackStatus s) (js ''_IN_PROGRESS'')"
    by (intro exI[of _ out] exI[of _ s]) (simp add: toStackInfo_def)
qed

theorem getStackId_updateable_witness:
  "getStackId
     [Inr \<lparr>Summaries = [\<lparr>StackId = js ''arn:1'', StackName = js ''tdl-a-ltd-dev'',
                          StackStatus = js ''DELETE_COMPLETE''\<rparr>,
                        \<lparr>StackId = js ''arn:2'', StackName = js ''tdl-a-ltd-dev'',
                          StackStatus = js ''UPDATE_COMPLETE''\<rparr>],
            NextToken = None\<rparr>]
     (js ''tdl-a-ltd-dev'')
   = (Some (Inr (Some (js ''arn:2''))), [(StackStatusFilter, None)], [])
   \<and> (\<exists>out s. Inr out \<in> set ([Inr \<lparr>Summaries = [\<lparr>StackId = js ''arn:1'', StackName = js ''tdl-a-ltd-dev'',
                          StackStatus = js ''DELETE_COMPLETE''\<rparr>,
                        \<lparr>StackId = js ''arn:2'', StackName = js ''tdl-a-ltd-dev'',
                          StackStatus = js ''UPDATE_COMPLETE''\<rparr>],
            NextToken = None\<rparr>] :: StackSummary provider)
          \<and> s \<in> set (Summaries out)
          \<and> StackId s = js ''arn:2'' \<and> StackName s = js ''tdl-a-ltd-dev''
          \<and> isUpdateableStatus (StackStatus s)
          \<and> \<not> startsWith (StackStatus s) (js ''DELETE_'')
          \<and> \<not> endsWith (StackStatus s) (js ''_IN_PROGRESS''))"
proof -
  let ?cf = "[Inr \<lparr>Summaries = [\<lparr>StackId = js ''arn:1'', StackName = js ''tdl-a-ltd-dev'',
                          StackStatus = js ''DELETE_COMPLETE''\<rparr>,
                        \<lparr>StackId = js ''arn:2'', StackName = js ''tdl-a-ltd-dev'',
                          StackStatus = js ''UPDATE_COMPLETE''\<rparr>],
            NextToken = None\<rparr>]"
  have h: "getStackId ?cf (js ''tdl-a-ltd-dev'')
             = (Some (Inr (Some (js ''arn:2''))), [(StackStatusFilter, None)], [])"
    by (simp add: getStackId_def listStacks_def truthy_def toStackInfo_def
        isUpdateableStatus_def endsWith_def startsWith_def js_def)
  show ?thesis
    by (rule conjI[OF h getStackId_updateable[THEN conjunct2, rule_format, OF h]])
qed

section \<open>Deleting a stack\<close>

lemma deleteStack_loop_retries:
  assumes "\<forall>e \<in> set errs. isCleanupInProgress e"
  shows "deleteStack_loop nm (map Inl errs @ Inr u # rest) =
           (Some (Inr u), concat (map (\<lambda>e. [DeleteStackCall nm, Wait 5000]) errs)
                            @ [DeleteStackCall nm], rest)"
  using assms by (induction errs) simp_all

lemma deleteStack_loop_keeps_retrying:
  "\<forall>e \<in> set errs. isCleanupInProgress e \<Longrightarrow>
   deleteStack_loop nm (map Inl errs) =
     (None, concat (map (\<lambda>e. [DeleteStackCall nm, Wait 5000]) errs), [])"
  by (induction errs) simp_all

text \<open>
  C3. Let the provider reject the delete call k times in a row with an error whose
  message contains \<open>UPDATE_ROLLBACK_COMPLETE_CLEANUP_IN_PROGRESS\<close> and then accept it.
  \<open>deleteStack\<close> then makes k + 1 delete calls, pauses 5000 ms after each of the k rejected
  ones, and returns the deferred waiter without having run it. When instead the first
  answer is an error without that text, \<open>deleteStack\<close> throws this error after a single
  call, with no pause and no retry.
\<close>

theorem deleteStack_retries:
  assumes "\<forall>e \<in> set errs. isCleanupInProgress e" and "\<not> isCleanupInProgress other"
  shows "deleteStack (map Inl errs @ Inr () # rest) nm =
           (Some (Inr (stackDeleteWaiter nm)),
            concat (map (\<lambda>e. [DeleteStackCall nm, Wait 5000]) errs) @ [DeleteStackCall nm],
            rest)
       \<and> length (filter (\<lambda>x. x = Wait 5000)
            (fst (snd (deleteStack (map Inl errs @ Inr () # rest) nm)))) = length errs
       \<and> length (filter (\<lambda>x. x = DeleteStackCall nm)
            (fst (snd (deleteStack (map Inl errs @ Inr () # rest) nm)))) = Suc (length errs)
       \<and> deleteStack (Inl other # rest) nm = (Some (Inl other), [DeleteStackCall nm], rest)"
proof -
  have 1: "deleteStack (map Inl errs @ Inr () # rest) nm =
           (Some (Inr (stackDeleteWaiter nm)),
            concat (map (\<lambda>e. [DeleteStackCall nm, Wait 5000]) errs) @ [DeleteStackCall nm],
            rest)"
    by (simp add: deleteStack_def deleteStack_loop_retries[OF assms(1)])
  have 2: "length (filter (\<lambda>x. x = Wait 5000)
            (concat (map (\<lambda>e. [DeleteStackCall nm, Wait 5000]) errs) @ [DeleteStackCall nm]))
          = length errs" by (induction errs) simp_all
  have 3: "length (filter (\<lambda>x. x = DeleteStackCall nm)
            (concat (map (\<lambda>e. [DeleteStackCall nm, Wait 5000]) errs) @ [DeleteStackCall nm]))
          = Suc (length errs)" by (induction errs) simp_all
  have 4: "deleteStack (Inl other # rest) nm = (Some (Inl other), [DeleteStackCall nm], rest)"
    using assms(2) by (simp add: deleteStack_def)
  from 1 2 3 4 show ?thesis by simp
qed

theorem deleteStack_retries_witness:
  "isCleanupInProgress
     (JsError AWSError (js ''Stack is in UPDATE_ROLLBACK_COMPLETE_CLEANUP_IN_PROGRESS state'')
        (Some (js ''ValidationError'')))
   \<and> \<not> isCleanupInProgress (JsError AWSError (js ''Rate exceeded'') (Some (js ''Throttling'')))
   \<and> deleteStack
        [Inl (JsError AWSError (js ''Stack is in UPDATE_ROLLBACK_COMPLETE_CLEANUP_IN_PROGRESS state'') (Some (js ''ValidationError''))),
         Inl (JsError AWSError (js ''Stack is in UPDATE_ROLLBACK_COMPLETE_CLEANUP_IN_PROGRESS state'') (Some (js ''ValidationError''))),
         Inr ()]
        (js ''tdl-a-ltd-dev'')
      = (Some (Inr (stackDeleteWaiter (js ''tdl-a-ltd-dev''))),
         [DeleteStackCall (js ''tdl-a-ltd-dev''), Wait 5000,
          DeleteStackCall (js ''tdl-a-ltd-dev''), Wait 5000,
          DeleteStackCall (js ''tdl-a-ltd-dev'')], [])
   \<and> deleteStack [Inl (JsError AWSError (js ''Rate exceeded'') (Some (js ''Throttling'')))]
        (js ''tdl-a-ltd-dev'')
      = (Some (Inl (JsError AWSError (js ''Rate exceeded'') (Some (js ''Throttling'')))),
         [DeleteStackCall (js ''tdl-a-ltd-dev'')], [])"
proof -
  let ?busy = "JsError AWSError (js ''Stack is in UPDATE_ROLLBACK_COMPLETE_CLEANUP_IN_PROGRESS state'') (Some (js ''ValidationError''))"
  let ?other = "JsError AWSError (js ''Rate exceeded'') (Some (js ''Throttling''))"
  have b: "isCleanupInProgress ?busy"
    by (simp add: isCleanupInProgress_def js_includes_def occursAt_def js_def)
  have h1: "\<forall>e \<in> set [?busy, ?busy]. isCleanupInProgress e" using b by simp
  have h2: "\<not> isCleanupInProgress ?other"
    by (simp add: isCleanupInProgress_def js_includes_def occursAt_def js_def)
  from deleteStack_retries[OF h1 h2, of "[]" "js ''tdl-a-ltd-dev''"] b h2
  show ?thesis by simp
qed

lemma deleteStack_keeps_retrying:
  "\<forall>e \<in> set errs. isCleanupInProgress e \<Longrightarrow> fst (deleteStack (map Inl errs) nm) = None"
  by (simp add: deleteStack_def deleteStack_loop_keeps_retrying)

section \<open>Destroying a bucket\<close>

lemma destroyBucket_cases:
  "destroyBucket emptied deleted b =
     (case emptied of
        Inl err \<Rightarrow> (Inl err, [EmptyBucketCall b])
      | Inr u \<Rightarrow>
         (case deleted of
            Inr v \<Rightarrow> Inr ()
          | Inl err \<Rightarrow>
              if code err = Some (js ''ResourceNotFoundException'') \<or> code err = Some (js ''NoSuchBucket'')
              then Inr () else Inl err,
          [EmptyBucketCall b, DeleteBucketCall b]))"
  by (simp add: destroyBucket_def Errors_ignore_def Errors_matches_def split: sum.splits)

text \<open>
  C4. \<open>destroyBucket\<close> empties the bucket and then deletes it, and it swallows
  \<open>NoSuchBucket\<close> and \<open>ResourceNotFoundException\<close> when the delete call raises them. The
  \<open>emptyBucket\<close> call stands before the \<open>try\<close>, though: when the bucket does not exist and
  the empty step is rejected with \<open>NoSuchBucket\<close>, \<open>destroyBucket\<close> throws that error and
  never reaches the delete call, whereas the same error from the delete call is
  swallowed.
\<close>

theorem destroyBucket_missing_bucket:
  "(\<forall>deleted.
      destroyBucket
        (Inl (JsError AWSError (js ''The specified bucket does not exist'') (Some (js ''NoSuchBucket''))))
        deleted (js ''tdl-a-ltd-dev-logs'')
      = (Inl (JsError AWSError (js ''The specified bucket does not exist'') (Some (js ''NoSuchBucket''))),
         [EmptyBucketCall (js ''tdl-a-ltd-dev-logs'')]))
   \<and> destroyBucket (Inr ())
        (Inl (JsError AWSError (js ''The specified bucket does not exist'') (Some (js ''NoSuchBucket''))))
        (js ''tdl-a-ltd-dev-logs'')
      = (Inr (), [EmptyBucketCall (js ''tdl-a-ltd-dev-logs''), DeleteBucketCall (js ''tdl-a-ltd-dev-logs'')])"
  by (simp add: destroyBucket_def Errors_ignore_def Errors_matches_def)

section \<open>The invocation envelope\<close>

lemma checkResponse_failed:
  "functionFailed resp \<Longrightarrow> \<exists>err. checkResponse world resp = Inl err"
  by (simp add: checkResponse_def split: option.splits)

lemma checkResponse_ok:
  "\<not> functionFailed resp \<Longrightarrow> Payload resp = Some p \<Longrightarrow> JSON_parse world p = Inr v \<Longrightarrow>
   checkResponse world resp = Inr (Parsed v)"
  by (simp add: checkResponse_def)

lemma invoke_cases:
  assumes "truthy (functionName opts)"
  shows "invoke this world opts =
           Inr (case underlying this world opts of
                  Inl err \<Rightarrow> \<lparr> error = Some err, result = None \<rparr>
                | Inr r \<Rightarrow> \<lparr> error = None, result = Some r \<rparr>)"
  using assms by (simp add: invoke_def split: sum.splits)

text \<open>
  Without a function name the prompt runs before the \<open>try\<close>, and an error of the prompt
  is thrown by \<open>invoke\<close> itself.
\<close>

lemma invoke_prompt_throws:
  assumes "\<not> truthy (functionName opts)" "promptFn world (js ''which function?'') = Inl err"
  shows "invoke this world opts = Inl err"
  using assms by (simp add: invoke_def)

text \<open>
  C1. Let the options carry a function name. Then \<open>invoke\<close> does not throw: it returns an
  envelope in which exactly one of the keys \<open>error\<close> and \<open>result\<close> is present. When the
  underlying remote or local invocation throws, the envelope is \<open>{ error }\<close> with the
  thrown value; this covers a remote answer with a function error marker or a status
  code of 300 or more. When the underlying invocation returns, the envelope is
  \<open>{ result }\<close> with the returned value, which for a remote answer that did not fail is
  the parsed payload. \<open>invokeAndReturn\<close> on the same options throws the error of the
  envelope when there is one and returns its result otherwise.
\<close>

theorem invoke_envelope:
  assumes fn: "truthy (functionName opts)"
  shows "\<exists>env. invoke this world opts = Inr env
           \<and> ((error env = None) \<noteq> (result env = None))
           \<and> (\<forall>err. underlying this world opts = Inl err \<longrightarrow>
                  env = \<lparr> error = Some err, result = None \<rparr>)
           \<and> (\<forall>r. underlying this world opts = Inr r \<longrightarrow>
                  env = \<lparr> error = None, result = Some r \<rparr>)
           \<and> (\<forall>resp. \<not> useLocal this opts \<longrightarrow> awaitLambda this world opts = Inr resp \<longrightarrow>
                  functionFailed resp \<longrightarrow>
                  (\<exists>err. env = \<lparr> error = Some err, result = None \<rparr>))
           \<and> (\<forall>resp p v. \<not> useLocal this opts \<longrightarrow> awaitLambda this world opts = Inr resp \<longrightarrow>
                  \<not> functionFailed resp \<longrightarrow> Payload resp = Some p \<longrightarrow>
                  JSON_parse world p = Inr v \<longrightarrow>
                  env = \<lparr> error = None, result = Some (Parsed v) \<rparr>)
           \<and> invokeAndReturn this world opts =
               (case error env of Some err \<Rightarrow> Inl err | None \<Rightarrow> Inr (result env))"
proof -
  define env where "env = (case underlying this world opts of
                  Inl err \<Rightarrow> \<lparr> error = Some err, result = None \<rparr>
                | Inr r \<Rightarrow> \<lparr> error = None, result = Some r \<rparr>)"
  have i: "invoke this world opts = Inr env"
    unfolding env_def by (rule invoke_cases[OF fn])
  have one: "(error env = None) \<noteq> (result env = None)"
    unfolding env_def by (simp split: sum.splits)
  have e: "\<forall>err. underlying this world opts = Inl err \<longrightarrow>
                  env = \<lparr> error = Some err, result = None \<rparr>"
    unfolding env_def by simp
  have r: "\<forall>r. underlying this world opts = Inr r \<longrightarrow>
                  env = \<lparr> error = None, result = Some r \<rparr>"
    unfolding env_def by simp
  have f: "\<forall>resp. \<not> useLocal this opts \<longrightarrow> awaitLambda this world opts = Inr resp \<longrightarrow>
                  functionFailed resp \<longrightarrow>
                  (\<exists>err. env = \<lparr> error = Some err, result = None \<rparr>)"
  proof (intro allI impI)
    fix resp assume "\<not> useLocal this opts" "awaitLambda this world opts = Inr resp"
      "functionFailed resp"
    then have "\<exists>err. underlying this world opts = Inl err"
      using checkResponse_failed[of resp world] by (simp add: underlying_def invoke_remote_def)
    with e show "\<exists>err. env = \<lparr> error = Some err, result = None \<rparr>" by blast
  qed
  have s: "\<forall>resp p v. \<not> useLocal this opts \<longrightarrow> awaitLambda this world opts = Inr resp \<longrightarrow>
                  \<not> functionFailed resp \<longrightarrow> Payload resp = Some p \<longrightarrow>
                  JSON_parse world p = Inr v \<longrightarrow>
                  env = \<lparr> error = None, result = Some (Parsed v) \<rparr>"
  proof (intro allI impI)
    fix resp p v assume "\<not> useLocal this opts" "awaitLambda this world opts = Inr resp"
      "\<not> functionFailed resp" "Payload resp = Some p" "JSON_parse world p = Inr v"
    then have "underlying this world opts = Inr (Parsed v)"
      using checkResponse_ok[of resp p world v] by (simp add: underlying_def invoke_remote_def)
    with r show "env = \<lparr> error = None, result = Some (Parsed v) \<rparr>" by blast
  qed
  have ar: "invokeAndReturn this world opts =
               (case error env of Some err \<Rightarrow> Inl err | None \<Rightarrow> Inr (result env))"
    by (simp add: invokeAndReturn_def i)
  from i one e r f s ar show ?thesis by blast
qed

theorem invoke_envelope_witness:
  "truthy (functionName
      (\<lparr> functionName = Some (js ''setconf''), arg = None, local = None, noWarning = False \<rparr>
        :: jsstring InvokeOpts))
   \<and> invoke
        \<lparr> this_local = False, this_remote = True, this_stackName = Some (js ''tdl-a-ltd-dev''),
          this_project = [], this_nodeFlags = [] \<rparr>
        \<lparr> confirmOrAbort = \<lambda>q. Inr (), promptFn = \<lambda>q. Inr (js ''cli''),
          lambda_invoke = \<lambda>req. Inr \<lparr> StatusCode = Some 200, Payload = Some (js ''true''),
                                        FunctionError = None \<rparr>,
          JSON_parse = \<lambda>s. Inr s, JSON_stringify = \<lambda>v. v, emptyObject = js ''{}'',
          sls_invoke_local = \<lambda>p f n a. Inl (JsError Error [] None) \<rparr>
        \<lparr> functionName = Some (js ''setconf''), arg = None, local = None, noWarning = False \<rparr>
      = Inr \<lparr> error = None, result = Some (Parsed (js ''true'')) \<rparr>
   \<and> invokeAndReturn
        \<lparr> this_local = False, this_remote = True, this_stackName = Some (js ''tdl-a-ltd-dev''),
          this_project = [], this_nodeFlags = [] \<rparr>
        \<lparr> confirmOrAbort = \<lambda>q. Inr (), promptFn = \<lambda>q. Inr (js ''cli''),
          lambda_invoke = \<lambda>req. Inr \<lparr> StatusCode = Some 200, Payload = Some (js ''true''),
                                        FunctionError = None \<rparr>,
          JSON_parse = \<lambda>s. Inr s, JSON_stringify = \<lambda>v. v, emptyObject = js ''{}'',
          sls_invoke_local = \<lambda>p f n a. Inl (JsError Error [] None) \<rparr>
        \<lparr> functionName = Some (js ''setconf''), arg = None, local = None, noWarning = False \<rparr>
      = Inr (Some (Parsed (js ''true'')))"
proof -
  let ?opts = "\<lparr> functionName = Some (js ''setconf''), arg = None, local = None,
                 noWarning = False \<rparr> :: jsstring InvokeOpts"
  let ?conf = "\<lparr> this_local = False, this_remote = True,
                 this_stackName = Some (js ''tdl-a-ltd-dev''),
                 this_project = [], this_nodeFlags = [] \<rparr>"
  let ?resp = "\<lparr> StatusCode = Some 200, Payload = Some (js ''true''), FunctionError = None \<rparr>"
  let ?world = "\<lparr> confirmOrAbort = \<lambda>q. Inr (), promptFn = \<lambda>q. Inr (js ''cli''),
          lambda_invoke = \<lambda>req. Inr ?resp,
          JSON_parse = \<lambda>s. Inr s, JSON_stringify = \<lambda>v. v, emptyObject = js ''{}'',
          sls_invoke_local = \<lambda>p f n a. Inl (JsError Error [] None) \<rparr>"
  have h: "truthy (functionName ?opts)" by (simp add: truthy_def js_def)
  from invoke_envelope[OF h, of ?conf ?world] obtain env where
    i: "invoke ?conf ?world ?opts = Inr env"
    and s: "\<forall>resp p v. \<not> useLocal ?conf ?opts \<longrightarrow> awaitLambda ?conf ?world ?opts = Inr resp \<longrightarrow>
                  \<not> functionFailed resp \<longrightarrow> Payload resp = Some p \<longrightarrow>
                  JSON_parse ?world p = Inr v \<longrightarrow>
                  env = \<lparr> error = None, result = Some (Parsed v) \<rparr>"
    and ar: "invokeAndReturn ?conf ?world ?opts =
               (case error env of Some err \<Rightarrow> Inl err | None \<Rightarrow> Inr (result env))"
    by (elim exE conjE)
  have l: "\<not> useLocal ?conf ?opts" by (simp add: useLocal_def)
  have a: "awaitLambda ?conf ?world ?opts = Inr ?resp"
    by (simp add: awaitLambda_def ensureStackNameKnown_def Conf_getLongFunctionName_def truthy_def js_def)
  have f: "\<not> functionFailed ?resp" by (simp add: functionFailed_def truthy_def)
  have p: "Payload ?resp = Some (js ''true'')" by simp
  have j: "JSON_parse ?world (js ''true'') = Inr (js ''true'')" by simp
  from s[rule_format, OF l a f p j]
  have env: "env = \<lparr> error = None, result = Some (Parsed (js ''true'')) \<rparr>" .
  from h i ar show ?thesis unfolding env by simp
qed

section \<open>Deploy options\<close>

lemma DEPLOY_ALL_OPTS_deployable:
  "key \<in> set DEPLOYABLES \<Longrightarrow> DEPLOY_ALL_OPTS key = Some (JBool True)"
  unfolding DEPLOY_ALL_OPTS_def
  by (rule map_of_is_SomeI) (auto simp: DEPLOYABLES_def js_def distinct_map comp_def)

lemma getDeployables_Nil:
  "getDeployables opts = [] \<longleftrightarrow> (\<forall>key \<in> set DEPLOYABLES. opts key = None)"
  by (auto simp: getDeployables_def map_filter_def filter_empty_conv)

lemma normalizeDeployOpts_all:
  assumes "lodash_isEmpty (opts (js ''args''))"
    and "truthyProp opts (js ''all'') \<or> getDeployables opts = []"
  shows "normalizeDeployOpts opts command = Inr (DEPLOY_ALL_OPTS ++ opts)"
  using assms by (auto simp: normalizeDeployOpts_def)

lemma normalizeDeployOpts_never_nothing:
  assumes "lodash_isEmpty (opts (js ''args''))"
  shows "\<exists>opts'. normalizeDeployOpts opts command = Inr opts'"
  using assms by (auto simp: normalizeDeployOpts_def Let_def)

lemma truthyProp_all_opts:
  assumes "getDeployables opts = []" "key \<in> set DEPLOYABLES"
  shows "truthyProp (DEPLOY_ALL_OPTS ++ opts) key"
proof -
  from assms have "opts key = None" by (simp add: getDeployables_Nil)
  then have "(DEPLOY_ALL_OPTS ++ opts) key = Some (JBool True)"
    using DEPLOY_ALL_OPTS_deployable[OF assms(2)] by (simp add: map_add_def)
  then show ?thesis by (simp add: truthyProp_def truthy_val_def)
qed

lemma deployable_keys:
  "js ''style'' \<in> set DEPLOYABLES" "js ''terms'' \<in> set DEPLOYABLES"
  "js ''models'' \<in> set DEPLOYABLES" "js ''bot'' \<in> set DEPLOYABLES"
  by (simp_all add: DEPLOYABLES_def)

lemma items_depend_on_four_keys:
  assumes "truthyProp o1 (js ''style'') = truthyProp o2 (js ''style'')"
    "truthyProp o1 (js ''terms'') = truthyProp o2 (js ''terms'')"
    "truthyProp o1 (js ''models'') = truthyProp o2 (js ''models'')"
    "truthyProp o1 (js ''bot'') = truthyProp o2 (js ''bot'')"
  shows "collect [styleItems files o1, termsItems files o1, modelsItems ns files o1, botItems files o1]
       = collect [styleItems files o2, termsItems files o2, modelsItems ns files o2, botItems files o2]"
  using assms by (simp add: styleItems_def termsItems_def modelsItems_def botItems_def)

lemma truthyProp_all_set:
  assumes "key \<noteq> js ''all''"
  shows "truthyProp (DEPLOY_ALL_OPTS ++ opts(js ''all'' \<mapsto> v)) key
       = truthyProp (DEPLOY_ALL_OPTS ++ opts) key"
  using assms by (simp add: truthyProp_def map_add_def)

lemma getDeployItems_like_all:
  assumes noargs: "lodash_isEmpty (opts (js ''args''))" and none: "getDeployables opts = []"
  shows "getDeployItems ns files opts = getDeployItems ns files (opts(js ''all'' \<mapsto> JBool True))"
proof -
  let ?a = "opts(js ''all'' \<mapsto> JBool True)"
  have k: "js ''args'' \<noteq> js ''all''" "js ''style'' \<noteq> js ''all''" "js ''terms'' \<noteq> js ''all''"
    "js ''models'' \<noteq> js ''all''" "js ''bot'' \<noteq> js ''all''"
    by (simp_all add: js_def)
  have n1: "normalizeDeployOpts opts (js ''deploy'') = Inr (DEPLOY_ALL_OPTS ++ opts)"
    using noargs none by (rule normalizeDeployOpts_all[OF _ disjI2])
  have "lodash_isEmpty (?a (js ''args''))" using noargs k(1) by simp
  moreover have "truthyProp ?a (js ''all'')" by (simp add: truthyProp_def truthy_val_def)
  ultimately have n2: "normalizeDeployOpts ?a (js ''deploy'') = Inr (DEPLOY_ALL_OPTS ++ ?a)"
    by (rule normalizeDeployOpts_all[OF _ disjI1])
  have "collect [styleItems files (DEPLOY_ALL_OPTS ++ opts), termsItems files (DEPLOY_ALL_OPTS ++ opts),
                 modelsItems ns files (DEPLOY_ALL_OPTS ++ opts), botItems files (DEPLOY_ALL_OPTS ++ opts)]
      = collect [styleItems files (DEPLOY_ALL_OPTS ++ ?a), termsItems files (DEPLOY_ALL_OPTS ++ ?a),
                 modelsItems ns files (DEPLOY_ALL_OPTS ++ ?a), botItems files (DEPLOY_ALL_OPTS ++ ?a)]"
    by (rule items_depend_on_four_keys[OF truthyProp_all_set[OF k(2), symmetric]
          truthyProp_all_set[OF k(3), symmetric] truthyProp_all_set[OF k(4), symmetric]
          truthyProp_all_set[OF k(5), symmetric]])
  then show ?thesis
    unfolding getDeployItems_def n1 n2 sum.case .
qed

text \<open>
  C2, amended. Let the options carry no arguments. When no deployable key (\<open>bot\<close>,
  \<open>style\<close>, \<open>models\<close>, \<open>modelsPack\<close>, \<open>terms\<close>) is present in them, or \<open>all\<close> is truthy,
  \<open>normalizeDeployOpts\<close> does not fail: it returns the all-true defaults overridden by the
  given options. Every deployable key the options do not carry is then selected, and
  every key they carry keeps the caller's value. So a request in which no deployable key
  is present and \<open>all\<close> is not set does not fail with InvalidInput: \<open>getDeployItems\<close> gives
  for it what it gives for the same options with \<open>all: true\<close> added. When the options
  carry no deployable key and the reads succeed, that is the entries \<open>style\<close>, \<open>terms\<close> and
  \<open>bot\<close>, with \<open>modelsPack\<close> between them when a model or a lens exists and packing
  succeeds; when packing throws, so does \<open>getDeployItems\<close>.
\<close>

theorem deploy_all_by_default:
  assumes noargs: "lodash_isEmpty (opts (js ''args''))"
    and sel: "truthyProp opts (js ''all'') \<or> getDeployables opts = []"
  shows "normalizeDeployOpts opts command = Inr (DEPLOY_ALL_OPTS ++ opts)
       \<and> (\<forall>key \<in> set DEPLOYABLES. opts key = None \<longrightarrow>
             (DEPLOY_ALL_OPTS ++ opts) key = Some (JBool True))
       \<and> (\<forall>key v. opts key = Some v \<longrightarrow> (DEPLOY_ALL_OPTS ++ opts) key = Some v)
       \<and> (getDeployables opts = [] \<longrightarrow>
             getDeployItems ns files opts
               = getDeployItems ns files (opts(js ''all'' \<mapsto> JBool True)))
       \<and> (\<forall>sv tv ms ls bv.
             getDeployables opts = [] \<longrightarrow>
             read_style files = Inr sv \<longrightarrow> read_terms files = Inr tv \<longrightarrow>
             read_models files = Inr ms \<longrightarrow> read_lenses files = Inr ls \<longrightarrow>
             read_bot files = Inr bv \<longrightarrow>
             getDeployItems ns files opts =
               (if ms = [] \<and> ls = [] then
                  Inr [(js ''style'', jsonPart sv),
                       (js ''terms'', case tv of None \<Rightarrow> PartNull
                                      | Some t \<Rightarrow> if t = [] then PartNull else PartText t),
                       (js ''bot'', jsonPart bv)]
                else
                  (case pack files ns ms ls of
                     Inl err \<Rightarrow> Inl err
                   | Inr modelsPack \<Rightarrow>
                       Inr [(js ''style'', jsonPart sv),
                            (js ''terms'', case tv of None \<Rightarrow> PartNull
                                           | Some t \<Rightarrow> if t = [] then PartNull else PartText t),
                            (js ''modelsPack'', PartJson modelsPack),
                            (js ''bot'', jsonPart bv)])))"
proof (intro conjI allI impI ballI)
  show n: "normalizeDeployOpts opts command = Inr (DEPLOY_ALL_OPTS ++ opts)"
    by (rule normalizeDeployOpts_all[OF noargs sel])
  show "(DEPLOY_ALL_OPTS ++ opts) key = Some (JBool True)"
    if "key \<in> set DEPLOYABLES" "opts key = None" for key
    using that DEPLOY_ALL_OPTS_deployable[of key] by (simp add: map_add_def)
  show "(DEPLOY_ALL_OPTS ++ opts) key = Some v" if "opts key = Some v" for key v
    using that by (simp add: map_add_def)
  show "getDeployItems ns files opts
          = getDeployItems ns files (opts(js ''all'' \<mapsto> JBool True))"
    if "getDeployables opts = []"
    by (rule getDeployItems_like_all[OF noargs that])
  fix sv tv ms ls bv
  assume g: "getDeployables opts = []"
    and r: "read_style files = Inr sv" "read_terms files = Inr tv" "read_models files = Inr ms"
      "read_lenses files = Inr ls" "read_bot files = Inr bv"
  let ?o = "DEPLOY_ALL_OPTS ++ opts"
  note t = truthyProp_all_opts[OF g]
  have nd: "normalizeDeployOpts opts (js ''deploy'') = Inr ?o"
    by (rule normalizeDeployOpts_all[OF noargs sel])
  have s1: "styleItems files ?o = Inr [(js ''style'', jsonPart sv)]"
    using t[OF deployable_keys(1)] r(1) by (simp add: styleItems_def)
  have s2: "termsItems files ?o = Inr [(js ''terms'',
       case tv of None \<Rightarrow> PartNull | Some t \<Rightarrow> if t = [] then PartNull else PartText t)]"
    using t[OF deployable_keys(2)] r(2) by (simp add: termsItems_def)
  have s4: "botItems files ?o = Inr [(js ''bot'', jsonPart bv)]"
    using t[OF deployable_keys(4)] r(5) by (simp add: botItems_def)
  have s3: "modelsItems ns files ?o =
      (if ms \<noteq> [] \<or> ls \<noteq> [] then
         (case pack files ns ms ls of Inl err \<Rightarrow> Inl err
          | Inr mp \<Rightarrow> Inr [(js ''modelsPack'', PartJson mp)])
       else Inr [])"
    using t[OF deployable_keys(3)] r(3,4) by (simp add: modelsItems_def)
  show "getDeployItems ns files opts =
               (if ms = [] \<and> ls = [] then
                  Inr [(js ''style'', jsonPart sv),
                       (js ''terms'', case tv of None \<Rightarrow> PartNull
                                      | Some t \<Rightarrow> if t = [] then PartNull else PartText t),
                       (js ''bot'', jsonPart bv)]
                else
                  (case pack files ns ms ls of
                     Inl err \<Rightarrow> Inl err
                   | Inr modelsPack \<Rightarrow>
                       Inr [(js ''style'', jsonPart sv),
                            (js ''terms'', case tv of None \<Rightarrow> PartNull
                                           | Some t \<Rightarrow> if t = [] then PartNull else PartText t),
                            (js ''modelsPack'', PartJson modelsPack),
                            (js ''bot'', jsonPart bv)]))"
    by (simp add: getDeployItems_def nd s1 s2 s3 s4 split: sum.splits)
qed

theorem deploy_all_by_default_witness:
  "lodash_isEmpty ([js ''all'' \<mapsto> JBool True] (js ''args''))
   \<and> (truthyProp [js ''all'' \<mapsto> JBool True] (js ''all'')
        \<or> getDeployables [js ''all'' \<mapsto> JBool True] = [])
   \<and> normalizeDeployOpts [js ''all'' \<mapsto> JBool True] (js ''deploy'')
        = Inr (DEPLOY_ALL_OPTS ++ [js ''all'' \<mapsto> JBool True])
   \<and> getDeployItems None
        \<lparr> read_style = Inr (Some (js ''{}'')), read_terms = Inr (Some (js ''Terms'')),
          read_models = Inr [js ''{}''], read_lenses = Inr [], read_bot = Inr None,
          isTruthy = \<lambda>j. j \<noteq> [], ModelsPack_pack = \<lambda>n ms ls. Inr (js ''pack''),
          ModelsPack_getNamespace = \<lambda>m. Inr None \<rparr>
        [js ''all'' \<mapsto> JBool True]
        = Inr [(js ''style'', PartJson (js ''{}'')), (js ''terms'', PartText (js ''Terms'')),
               (js ''modelsPack'', PartJson (js ''pack'')), (js ''bot'', PartUndefined)]"
proof -
  let ?opts = "[js ''all'' \<mapsto> JBool True]"
  let ?files = "\<lparr> read_style = Inr (Some (js ''{}'')), read_terms = Inr (Some (js ''Terms'')),
          read_models = Inr [js ''{}''], read_lenses = Inr [], read_bot = Inr None,
          isTruthy = \<lambda>j. j \<noteq> [], ModelsPack_pack = \<lambda>n ms ls. Inr (js ''pack''),
          ModelsPack_getNamespace = \<lambda>m. Inr None \<rparr>"
  have h1: "lodash_isEmpty (?opts (js ''args''))"
    by (simp add: lodash_isEmpty_def js_def)
  have g: "getDeployables ?opts = []"
    by (simp add: getDeployables_def map_filter_def DEPLOYABLES_def js_def)
  have h2: "truthyProp ?opts (js ''all'') \<or> getDeployables ?opts = []"
    using g by simp
  note t = deploy_all_by_default[OF h1 h2, of "js ''deploy''" None ?files]
  have n: "normalizeDeployOpts ?opts (js ''deploy'') = Inr (DEPLOY_ALL_OPTS ++ ?opts)"
    using t by (elim conjE)
  have i: "getDeployItems None ?files ?opts
        = Inr [(js ''style'', PartJson (js ''{}'')), (js ''terms'', PartText (js ''Terms'')),
               (js ''modelsPack'', PartJson (js ''pack'')), (js ''bot'', PartUndefined)]"
    using t[THEN conjunct2, THEN conjunct2, THEN conjunct2, THEN conjunct2, rule_format, OF g,
        of "Some (js ''{}'')" "Some (js ''Terms'')" "[js ''{}'']" "[]" None]
    by (simp add: pack_def getNamespace_def firstModel_def firstOf_def jsonPart_def js_def)
  from h1 h2 n i show ?thesis by (intro conjI)
qed

text \<open>
  C2, as stated, fails on the code. With the empty options object, where no deployable
  item is selected and \<open>all\<close> is not set, \<open>normalizeDeployOpts\<close> does not throw InvalidInput:
  \<open>all\<close> defaults to true when no deployable key is present, the result is
  \<open>DEPLOY_ALL_OPTS\<close>, and \<open>getDeployItems\<close> returns the style, terms and bot items. And with
  \<open>{ all: true, bot: false }\<close> the caller's \<open>bot: false\<close> overrides the default, so the items
  have no \<open>bot\<close> entry although its source file is present.
\<close>

theorem deploy_nothing_selected_counterexample:
  "normalizeDeployOpts Map.empty (js ''deploy'') = Inr DEPLOY_ALL_OPTS
   \<and> getDeployItems None
        \<lparr> read_style = Inr (Some (js ''{}'')), read_terms = Inr None,
          read_models = Inr [], read_lenses = Inr [], read_bot = Inr (Some (js ''{}'')),
          isTruthy = \<lambda>j. j \<noteq> [], ModelsPack_pack = \<lambda>n ms ls. Inr (js ''pack''),
          ModelsPack_getNamespace = \<lambda>m. Inr None \<rparr>
        Map.empty
        = Inr [(js ''style'', PartJson (js ''{}'')), (js ''terms'', PartNull),
               (js ''bot'', PartJson (js ''{}''))]
   \<and> getDeployItems None
        \<lparr> read_style = Inr (Some (js ''{}'')), read_terms = Inr None,
          read_models = Inr [], read_lenses = Inr [], read_bot = Inr (Some (js ''{}'')),
          isTruthy = \<lambda>j. j \<noteq> [], ModelsPack_pack = \<lambda>n ms ls. Inr (js ''pack''),
          ModelsPack_getNamespace = \<lambda>m. Inr None \<rparr>
        [js ''all'' \<mapsto> JBool True, js ''bot'' \<mapsto> JBool False]
        = Inr [(js ''style'', PartJson (js ''{}'')), (js ''terms'', PartNull)]"
proof (intro conjI)
  show "normalizeDeployOpts Map.empty (js ''deploy'') = Inr DEPLOY_ALL_OPTS"
    by (simp add: normalizeDeployOpts_def lodash_isEmpty_def getDeployables_def map_filter_def)
  have a: "DEPLOY_ALL_OPTS (js ''style'') = Some (JBool True)"
    "DEPLOY_ALL_OPTS (js ''terms'') = Some (JBool True)"
    "DEPLOY_ALL_OPTS (js ''models'') = Some (JBool True)"
    "DEPLOY_ALL_OPTS (js ''bot'') = Some (JBool True)"
    by (simp_all add: DEPLOY_ALL_OPTS_def DEPLOYABLES_def js_def)
  show "getDeployItems None
        \<lparr> read_style = Inr (Some (js ''{}'')), read_terms = Inr None,
          read_models = Inr [], read_lenses = Inr [], read_bot = Inr (Some (js ''{}'')),
          isTruthy = \<lambda>j. j \<noteq> [], ModelsPack_pack = \<lambda>n ms ls. Inr (js ''pack''),
          ModelsPack_getNamespace = \<lambda>m. Inr None \<rparr>
        Map.empty
        = Inr [(js ''style'', PartJson (js ''{}'')), (js ''terms'', PartNull),
               (js ''bot'', PartJson (js ''{}''))]"
    by (simp add: getDeployItems_def normalizeDeployOpts_def lodash_isEmpty_def
        getDeployables_def map_filter_def styleItems_def termsItems_def modelsItems_def
        botItems_def truthyProp_def truthy_val_def jsonPart_def a)
  have b: "js ''style'' \<noteq> js ''all''" "js ''style'' \<noteq> js ''bot''"
    "js ''terms'' \<noteq> js ''all''" "js ''terms'' \<noteq> js ''bot''"
    "js ''models'' \<noteq> js ''all''" "js ''models'' \<noteq> js ''bot''"
    "js ''args'' \<noteq> js ''all''" "js ''args'' \<noteq> js ''bot''" "js ''all'' \<noteq> js ''bot''"
    by (simp_all add: js_def)
  show "getDeployItems None
        \<lparr> read_style = Inr (Some (js ''{}'')), read_terms = Inr None,
          read_models = Inr [], read_lenses = Inr [], read_bot = Inr (Some (js ''{}'')),
          isTruthy = \<lambda>j. j \<noteq> [], ModelsPack_pack = \<lambda>n ms ls. Inr (js ''pack''),
          ModelsPack_getNamespace = \<lambda>m. Inr None \<rparr>
        [js ''all'' \<mapsto> JBool True, js ''bot'' \<mapsto> JBool False]
        = Inr [(js ''style'', PartJson (js ''{}'')), (js ''terms'', PartNull)]"
    by (simp add: getDeployItems_def normalizeDeployOpts_def lodash_isEmpty_def
        styleItems_def termsItems_def modelsItems_def
        botItems_def truthyProp_def truthy_val_def jsonPart_def a b map_add_def)
qed

section \<open>Rebuilding a serialized error\<close>

lemma lookedUp_Some:
  assumes "map_of (ownProps err) (js ''name'') = Some name" and "name \<noteq> []"
    and "global name = Some construct" and "construct name = Some obj"
  shows "lookedUp global err = Some obj"
  using assms by (simp add: lookedUp_def)

lemma lookedUp_None:
  assumes "map_of (ownProps err) (js ''name'') = None
         \<or> map_of (ownProps err) (js ''name'') = Some []
         \<or> (\<exists>name. map_of (ownProps err) (js ''name'') = Some name \<and> global name = None)
         \<or> (\<exists>name construct. map_of (ownProps err) (js ''name'') = Some name
               \<and> global name = Some construct \<and> construct name = None)"
  shows "lookedUp global err = None"
  using assms by (auto simp: lookedUp_def)

lemma lodash_extend_throws_iff:
  "lodash_extend assign target source = Inl thrown \<longleftrightarrow>
     (\<exists>pre key v post target'.
        source = pre @ (key, v) # post
        \<and> lodash_extend assign target pre = Inr target'
        \<and> assign target' key v = Inl thrown)"
proof (induction source arbitrary: target)
  case Nil
  then show ?case by simp
next
  case (Cons p source)
  obtain key v where p: "p = (key, v)" by (cases p)
  show ?case
  proof (cases "assign target key v")
    case (Inl e)
    show ?thesis
    proof
      assume "lodash_extend assign target (p # source) = Inl thrown"
      with Inl p have "e = thrown" by simp
      with Inl p have "p # source = [] @ (key, v) # source
          \<and> lodash_extend assign target [] = Inr target \<and> assign target key v = Inl thrown"
        by simp
      then show "\<exists>pre key v post target'.
        p # source = pre @ (key, v) # post
        \<and> lodash_extend assign target pre = Inr target'
        \<and> assign target' key v = Inl thrown" by blast
    next
      assume "\<exists>pre key v post target'.
        p # source = pre @ (key, v) # post
        \<and> lodash_extend assign target pre = Inr target'
        \<and> assign target' key v = Inl thrown"
      then obtain pre k' v' post target' where
        s: "p # source = pre @ (k', v') # post"
        and r: "lodash_extend assign target pre = Inr target'"
        and t: "assign target' k' v' = Inl thrown" by blast
      show "lodash_extend assign target (p # source) = Inl thrown"
      proof (cases pre)
        case Nil
        with s r t p Inl show ?thesis by simp
      next
        case (Cons q pre')
        with s p have "q = (key, v)" by simp
        with Cons r Inl show ?thesis by simp
      qed
    qed
  next
    case (Inr t1)
    have step: "lodash_extend assign target (p # source) = lodash_extend assign t1 source"
      using Inr p by simp
    show ?thesis
    proof
      assume "lodash_extend assign target (p # source) = Inl thrown"
      then have "lodash_extend assign t1 source = Inl thrown" using step by simp
      then obtain pre k' v' post target' where
        s: "source = pre @ (k', v') # post"
        and r: "lodash_extend assign t1 pre = Inr target'"
        and t: "assign target' k' v' = Inl thrown"
        using Cons.IH[of t1] by blast
      from s r t Inr p have "p # source = (p # pre) @ (k', v') # post
          \<and> lodash_extend assign target (p # pre) = Inr target'
          \<and> assign target' k' v' = Inl thrown" by simp
      then show "\<exists>pre key v post target'.
        p # source = pre @ (key, v) # post
        \<and> lodash_extend assign target pre = Inr target'
        \<and> assign target' key v = Inl thrown" by blast
    next
      assume "\<exists>pre key v post target'.
        p # source = pre @ (key, v) # post
        \<and> lodash_extend assign target pre = Inr target'
        \<and> assign target' key v = Inl thrown"
      then obtain pre k' v' post target' where
        s: "p # source = pre @ (k', v') # post"
        and r: "lodash_extend assign target pre = Inr target'"
        and t: "assign target' k' v' = Inl thrown" by blast
      show "lodash_extend assign target (p # source) = Inl thrown"
      proof (cases pre)
        case Nil
        with s r t p Inr show ?thesis by simp
      next
        case (Cons q pre')
        with s have q: "q = p" and s': "source = pre' @ (k', v') # post" by simp_all
        from r Cons q p Inr have "lodash_extend assign t1 pre' = Inr target'" by simp
        with s' t have "lodash_extend assign t1 source = Inl thrown"
          using Cons.IH[of t1] by blast
        then show ?thesis using step by simp
      qed
    qed
  qed
qed

text \<open>
  C5, amended. A serialized error, an object that is not an instance of \<open>Error\<close>, that
  \<open>unwrapReturnValue\<close> finds in a nested envelope is rebuilt by \<open>normalizeError\<close> as follows.
  Its \<open>name\<close>, when not empty, is looked up among the properties of the global object, and
  when the value found there can be constructed with the name as argument, the
  constructed object is the one rebuilt on, whatever it is. When there is no name, the
  global object has no such property, or the construction throws, a generic \<open>Error\<close> made
  from the message, \<open>unspecified\<close> by default, is the one rebuilt on. The properties of the
  serialized error are then assigned to that object one by one, in order, as the object
  takes assignments. When an assignment throws, \<open>unwrapReturnValue\<close> throws that error;
  otherwise it returns the envelope of the serialized error with the object in the place
  of the error.
\<close>

theorem normalizeError_global_lookup:
  assumes ne: "\<not> instanceofError err"
  shows "unwrapReturnValue global assign (Envelope None (Some (Envelope (Some err) r)))
           = (case normalizeError global assign err of
                Inl thrown \<Rightarrow> Inl thrown
              | Inr normalized \<Rightarrow> Inr (Envelope (Some normalized) r))
       \<and> (\<forall>name construct obj.
            map_of (ownProps err) (js ''name'') = Some name \<longrightarrow> name \<noteq> [] \<longrightarrow>
            global name = Some construct \<longrightarrow> construct name = Some obj \<longrightarrow>
            normalizeError global assign err = lodash_extend assign obj (ownProps err))
       \<and> ((map_of (ownProps err) (js ''name'') = None
            \<or> map_of (ownProps err) (js ''name'') = Some []
            \<or> (\<exists>name. map_of (ownProps err) (js ''name'') = Some name \<and> global name = None)
            \<or> (\<exists>name construct. map_of (ownProps err) (js ''name'') = Some name
                  \<and> global name = Some construct \<and> construct name = None)) \<longrightarrow>
            normalizeError global assign err
              = lodash_extend assign (newError (messageOf err)) (ownProps err))
       \<and> (\<forall>target source thrown.
            (lodash_extend assign target source = Inl thrown)
            = (\<exists>pre key v post target'.
                 source = pre @ (key, v) # post
                 \<and> lodash_extend assign target pre = Inr target'
                 \<and> assign target' key v = Inl thrown))"
proof (intro conjI allI impI)
  show "unwrapReturnValue global assign (Envelope None (Some (Envelope (Some err) r)))
           = (case normalizeError global assign err of
                Inl thrown \<Rightarrow> Inl thrown
              | Inr normalized \<Rightarrow> Inr (Envelope (Some normalized) r))"
    by simp
next
  fix name construct obj
  assume "map_of (ownProps err) (js ''name'') = Some name" "name \<noteq> []"
    "global name = Some construct" "construct name = Some obj"
  then have "lookedUp global err = Some obj" by (rule lookedUp_Some)
  with ne show "normalizeError global assign err = lodash_extend assign obj (ownProps err)"
    by (simp add: normalizeError_def)
next
  assume "map_of (ownProps err) (js ''name'') = None
            \<or> map_of (ownProps err) (js ''name'') = Some []
            \<or> (\<exists>name. map_of (ownProps err) (js ''name'') = Some name \<and> global name = None)
            \<or> (\<exists>name construct. map_of (ownProps err) (js ''name'') = Some name
                  \<and> global name = Some construct \<and> construct name = None)"
  then have "lookedUp global err = None" by (rule lookedUp_None)
  with ne show "normalizeError global assign err
              = lodash_extend assign (newError (messageOf err)) (ownProps err)"
    by (simp add: normalizeError_def)
next
  fix target source thrown
  show "(lodash_extend assign target source = Inl thrown)
            = (\<exists>pre key v post target'.
                 source = pre @ (key, v) # post
                 \<and> lodash_extend assign target pre = Inr target'
                 \<and> assign target' key v = Inl thrown)"
    by (rule lodash_extend_throws_iff)
qed

theorem normalizeError_global_lookup_witness:
  "\<not> instanceofError (JsObject False (js ''Object'') None []
        [(js ''name'', js ''RangeError''), (js ''message'', js ''out of range'')])
   \<and> unwrapReturnValue standardErrors assignProperty
        (Envelope None (Some (Envelope (Some (JsObject False (js ''Object'') None []
           [(js ''name'', js ''RangeError''), (js ''message'', js ''out of range'')])) None)))
      = Inr (Envelope (Some (JsObject True (js ''RangeError'') (Some (js ''RangeError''))
           [(js ''message'', js ''out of range'')]
           [(js ''name'', js ''RangeError'')])) None)"
proof -
  let ?err = "JsObject False (js ''Object'') None []
        [(js ''name'', js ''RangeError''), (js ''message'', js ''out of range'')]"
  have h1: "\<not> instanceofError ?err" by simp
  note t = normalizeError_global_lookup[OF h1, of standardErrors assignProperty None]
  have n: "map_of (ownProps ?err) (js ''name'') = Some (js ''RangeError'')" by simp
  have g: "standardErrors (js ''RangeError'')
             = Some (\<lambda>a. Some (JsObject True (js ''RangeError'') (Some a)
                                 [(js ''message'', a)] []))"
    by (simp add: standardErrors_def js_def)
  have ne: "js ''RangeError'' \<noteq> []" by (simp add: js_def)
  have "normalizeError standardErrors assignProperty ?err =
          lodash_extend assignProperty
            (JsObject True (js ''RangeError'') (Some (js ''RangeError''))
               [(js ''message'', js ''RangeError'')] [])
            (ownProps ?err)"
    by (rule t[THEN conjunct2, THEN conjunct1, rule_format, OF n ne g]) simp
  then have v: "normalizeError standardErrors assignProperty ?err =
      Inr (JsObject True (js ''RangeError'') (Some (js ''RangeError''))
           [(js ''message'', js ''out of range'')]
           [(js ''name'', js ''RangeError'')])"
    by (simp add: assignProperty_def js_def)
  from t[THEN conjunct1] have "unwrapReturnValue standardErrors assignProperty
        (Envelope None (Some (Envelope (Some ?err) None)))
      = (case normalizeError standardErrors assignProperty ?err of
           Inl thrown \<Rightarrow> Inl thrown
         | Inr normalized \<Rightarrow> Inr (Envelope (Some normalized) None))" .
  with v h1 show ?thesis by simp
qed

text \<open>
  C5, as stated, fails on the code. The serialized error \<open>{ name: 'InvalidInput' }\<close> of the
  system's own taxonomy names no property of the global object, so it is rebuilt as a
  generic \<open>Error\<close>, with \<open>InvalidInput\<close> as a property only. And any property of the global
  object serves as the constructor: with \<open>{ name: 'Date' }\<close> the result is the date object
  that \<open>new Date('Date')\<close> makes, which is no error.
\<close>

theorem normalizeError_counterexample:
  "normalizeError standardErrors assignProperty
     (JsObject False (js ''Object'') None []
        [(js ''name'', js ''InvalidInput''), (js ''message'', js ''expected string'')])
   = Inr (JsObject True (js ''Error'') (Some (js ''expected string''))
        [(js ''message'', js ''expected string'')]
        [(js ''name'', js ''InvalidInput'')])
   \<and> normalizeError
       (\<lambda>name. if name = js ''Date''
                then Some (\<lambda>a. Some (JsObject False (js ''Date'') (Some a) [] []))
                else standardErrors name)
       assignProperty
       (JsObject False (js ''Object'') None []
          [(js ''name'', js ''Date''), (js ''message'', js ''expected string'')])
   = Inr (JsObject False (js ''Date'') (Some (js ''Date'')) []
        [(js ''name'', js ''Date''), (js ''message'', js ''expected string'')])"
  by (simp add: normalizeError_def lookedUp_def messageOf_def standardErrors_def newError_def
      assignProperty_def js_def)

section \<open>Enumerating nested stacks\<close>

lemma those_map_returns:
  "those (map f xs) \<noteq> None \<longleftrightarrow> (\<forall>x \<in> set xs. f x \<noteq> None)"
  by (induction xs) (auto split: option.splits)

lemma those_cong_Some:
  assumes "those (map f xs) = Some ys" "\<And>x y. x \<in> set xs \<Longrightarrow> f x = Some y \<Longrightarrow> g x = Some y"
  shows "those (map g xs) = Some ys"
  using assms
proof (induction xs arbitrary: ys)
  case Nil
  then show ?case by simp
next
  case (Cons x xs)
  from Cons.prems(1) obtain y ys' where y: "f x = Some y" "those (map f xs) = Some ys'" "ys = y # ys'"
    by (auto split: option.splits)
  from Cons.IH[OF y(2)] Cons.prems(2) have "those (map g xs) = Some ys'" by simp
  moreover from Cons.prems(2)[of x y] y(1) have "g x = Some y" by simp
  ultimately show ?case using y(3) by simp
qed

lemma substacks_eq:
  "filter (\<lambda>r. ResourceType r = js ''AWS::CloudFormation::Stack'') (resourcesOf cf sid)
     = listSubstacks cf sid"
  unfolding listSubstacks_def listStackResourcesByType_def
  by (rule filter_cong) auto

lemma getStackTemplates_returns_iff:
  "getStackTemplates d cf sid \<noteq> None \<longleftrightarrow> nestedWithin d cf sid"
proof (induction d arbitrary: sid)
  case 0
  show ?case by simp
next
  case (Suc d)
  show ?case
  proof (cases "listSubstacks cf sid = []")
    case True
    then show ?thesis by simp
  next
    case False
    have "those (map (\<lambda>n. getStackTemplates d cf (PhysicalResourceId n)) (listSubstacks cf sid)) \<noteq> None
          \<longleftrightarrow> (\<forall>n \<in> set (listSubstacks cf sid). nestedWithin d cf (PhysicalResourceId n))"
      unfolding those_map_returns using Suc.IH by blast
    with False show ?thesis
      by (auto simp: Let_def list_all_iff split: option.splits)
  qed
qed

lemma listRetainedResources_returns_iff:
  "listRetainedResources d cf sid \<noteq> None \<longleftrightarrow> nestedWithin d cf sid"
proof (induction d arbitrary: sid)
  case 0
  show ?case by simp
next
  case (Suc d)
  have "those (map (\<lambda>n. listRetainedResources d cf (PhysicalResourceId n)) (listSubstacks cf sid)) \<noteq> None
          \<longleftrightarrow> (\<forall>n \<in> set (listSubstacks cf sid). nestedWithin d cf (PhysicalResourceId n))"
    unfolding those_map_returns using Suc.IH by blast
  then show ?case
    by (auto simp: Let_def list_all_iff substacks_eq split: option.splits)
qed

lemma getStackTemplates_Suc:
  "getStackTemplates d cf sid = Some ts \<Longrightarrow> getStackTemplates (Suc d) cf sid = Some ts"
proof (induction d arbitrary: sid ts)
  case 0
  then show ?case by simp
next
  case (Suc d)
  show ?case
  proof (cases "listSubstacks cf sid = []")
    case True
    with Suc.prems show ?thesis by simp
  next
    case False
    with Suc.prems obtain tss where
      t: "those (map (\<lambda>n. getStackTemplates d cf (PhysicalResourceId n)) (listSubstacks cf sid)) = Some tss"
      and ts: "ts = [templateOf cf sid] @ concat tss"
      by (auto simp: Let_def split: option.splits)
    have "those (map (\<lambda>n. getStackTemplates (Suc d) cf (PhysicalResourceId n)) (listSubstacks cf sid)) = Some tss"
      by (rule those_cong_Some[OF t]) (rule Suc.IH)
    with False ts show ?thesis
      using getStackTemplates.simps(2)[of "Suc d" cf sid] by (simp add: Let_def)
  qed
qed

lemma getStackTemplates_mono:
  assumes "getStackTemplates d cf sid = Some ts" "d \<le> d'"
  shows "getStackTemplates d' cf sid = Some ts"
  using assms(2,1) by (induction rule: dec_induct) (auto intro: getStackTemplates_Suc simp del: getStackTemplates.simps)

lemma listRetainedResources_Suc:
  "listRetainedResources d cf sid = Some rs \<Longrightarrow> listRetainedResources (Suc d) cf sid = Some rs"
proof (induction d arbitrary: sid rs)
  case 0
  then show ?case by simp
next
  case (Suc d)
  from Suc.prems obtain rss where
    t: "those (map (\<lambda>n. listRetainedResources d cf (PhysicalResourceId n)) (listSubstacks cf sid)) = Some rss"
    and rs: "rs = retainedOf (templateOf cf sid) (resourcesOf cf sid) @ concat rss"
    by (auto simp: Let_def substacks_eq split: option.splits)
  have "those (map (\<lambda>n. listRetainedResources (Suc d) cf (PhysicalResourceId n)) (listSubstacks cf sid)) = Some rss"
    by (rule those_cong_Some[OF t]) (rule Suc.IH)
  with rs show ?case
    using listRetainedResources.simps(2)[of "Suc d" cf sid] by (simp add: Let_def substacks_eq)
qed

lemma listRetainedResources_mono:
  assumes "listRetainedResources d cf sid = Some rs" "d \<le> d'"
  shows "listRetainedResources d' cf sid = Some rs"
  using assms(2,1) by (induction rule: dec_induct) (auto intro: listRetainedResources_Suc simp del: listRetainedResources.simps)

lemma self_nested_never_within:
  assumes "n \<in> set (listSubstacks cf sid)" "PhysicalResourceId n = sid"
  shows "\<not> nestedWithin d cf sid"
proof (induction d)
  case 0
  show ?case by simp
next
  case (Suc d)
  with assms show ?case by (auto simp: list_all_iff)
qed

lemma getStackTemplates_head:
  "getStackTemplates d cf sid = Some ts \<Longrightarrow> ts \<noteq> [] \<and> hd ts = templateOf cf sid"
  by (cases d) (auto simp: Let_def split: if_splits option.splits)

text \<open>
  C6, amended. The recursive enumeration of templates and of retained resources has no
  bound on its depth: it recurses into every nested stack, and a run allowed \<open>d\<close> nested
  activations returns exactly when every chain of nested stacks below the stack has at
  most \<open>d\<close> stacks. On such a finite nesting it terminates, with the same value however
  much deeper it is allowed to go; the value of \<open>getStackTemplates\<close> is the stack's own
  template followed by the results for its nested stacks, concatenated in listing order.
  On a stack that lists itself as a nested stack it does not terminate.
\<close>

theorem nested_enumeration_unbounded:
  "(getStackTemplates d cf sid \<noteq> None \<longleftrightarrow> nestedWithin d cf sid)
   \<and> (listRetainedResources d cf sid \<noteq> None \<longleftrightarrow> nestedWithin d cf sid)
   \<and> (nestedWithin d cf sid \<longrightarrow>
        (\<exists>ts rs. ts \<noteq> [] \<and> hd ts = templateOf cf sid
           \<and> (\<forall>d' \<ge> d. getStackTemplates d' cf sid = Some ts
                      \<and> listRetainedResources d' cf sid = Some rs)))
   \<and> (\<forall>tss. those (map (\<lambda>n. getStackTemplates d cf (PhysicalResourceId n))
                      (listSubstacks cf sid)) = Some tss \<longrightarrow>
          getStackTemplates (Suc d) cf sid = Some (templateOf cf sid # concat tss))
   \<and> ((\<exists>n \<in> set (listSubstacks cf sid). PhysicalResourceId n = sid) \<longrightarrow>
        (\<forall>d'. getStackTemplates d' cf sid = None \<and> listRetainedResources d' cf sid = None))"
proof (intro conjI impI allI)
  show "getStackTemplates d cf sid \<noteq> None \<longleftrightarrow> nestedWithin d cf sid"
    by (rule getStackTemplates_returns_iff)
  show "listRetainedResources d cf sid \<noteq> None \<longleftrightarrow> nestedWithin d cf sid"
    by (rule listRetainedResources_returns_iff)
next
  assume w: "nestedWithin d cf sid"
  then obtain ts where ts: "getStackTemplates d cf sid = Some ts"
    using getStackTemplates_returns_iff[of d cf sid] by auto
  from w obtain rs where rs: "listRetainedResources d cf sid = Some rs"
    using listRetainedResources_returns_iff[of d cf sid] by auto
  have "\<forall>d' \<ge> d. getStackTemplates d' cf sid = Some ts \<and> listRetainedResources d' cf sid = Some rs"
    using getStackTemplates_mono[OF ts] listRetainedResources_mono[OF rs] by blast
  with getStackTemplates_head[OF ts]
  show "\<exists>ts rs. ts \<noteq> [] \<and> hd ts = templateOf cf sid
           \<and> (\<forall>d' \<ge> d. getStackTemplates d' cf sid = Some ts
                      \<and> listRetainedResources d' cf sid = Some rs)"
    by blast
next
  fix tss
  assume "those (map (\<lambda>n. getStackTemplates d cf (PhysicalResourceId n))
                      (listSubstacks cf sid)) = Some tss"
  then show "getStackTemplates (Suc d) cf sid = Some (templateOf cf sid # concat tss)"
    by (cases "listSubstacks cf sid = []") (auto simp: Let_def)
next
  fix d'
  assume "\<exists>n \<in> set (listSubstacks cf sid). PhysicalResourceId n = sid"
  then have "\<not> nestedWithin d' cf sid" using self_nested_never_within by blast
  then show "getStackTemplates d' cf sid = None"
    using getStackTemplates_returns_iff[of d' cf sid] by simp
next
  fix d'
  assume "\<exists>n \<in> set (listSubstacks cf sid). PhysicalResourceId n = sid"
  then have "\<not> nestedWithin d' cf sid" using self_nested_never_within by blast
  then show "listRetainedResources d' cf sid = None"
    using listRetainedResources_returns_iff[of d' cf sid] by simp
qed

theorem nested_enumeration_unbounded_witness:
  "nestedWithin (Suc (Suc 0))
     \<lparr> templateOf = \<lambda>sid. \<lparr> Resources = [(sid, None)] \<rparr>,
       resourcesOf = \<lambda>sid. if sid = js ''A''
         then [\<lparr> LogicalResourceId = js ''B'', PhysicalResourceId = js ''B'',
                 ResourceType = js ''AWS::CloudFormation::Stack'' \<rparr>,
               \<lparr> LogicalResourceId = js ''Bucket'', PhysicalResourceId = js ''b-1'',
                 ResourceType = js ''AWS::S3::Bucket'' \<rparr>,
               \<lparr> LogicalResourceId = js ''C'', PhysicalResourceId = js ''C'',
                 ResourceType = js ''AWS::CloudFormation::Stack'' \<rparr>]
         else [] \<rparr>
     (js ''A'')
   \<and> getStackTemplates 7
     \<lparr> templateOf = \<lambda>sid. \<lparr> Resources = [(sid, None)] \<rparr>,
       resourcesOf = \<lambda>sid. if sid = js ''A''
         then [\<lparr> LogicalResourceId = js ''B'', PhysicalResourceId = js ''B'',
                 ResourceType = js ''AWS::CloudFormation::Stack'' \<rparr>,
               \<lparr> LogicalResourceId = js ''Bucket'', PhysicalResourceId = js ''b-1'',
                 ResourceType = js ''AWS::S3::Bucket'' \<rparr>,
               \<lparr> LogicalResourceId = js ''C'', PhysicalResourceId = js ''C'',
                 ResourceType = js ''AWS::CloudFormation::Stack'' \<rparr>]
         else [] \<rparr>
     (js ''A'')
     = Some [\<lparr> Resources = [(js ''A'', None)] \<rparr>, \<lparr> Resources = [(js ''B'', None)] \<rparr>,
             \<lparr> Resources = [(js ''C'', None)] \<rparr>]"
proof -
  let ?cf = "\<lparr> templateOf = \<lambda>sid. \<lparr> Resources = [(sid, None)] \<rparr>,
       resourcesOf = \<lambda>sid. if sid = js ''A''
         then [\<lparr> LogicalResourceId = js ''B'', PhysicalResourceId = js ''B'',
                 ResourceType = js ''AWS::CloudFormation::Stack'' \<rparr>,
               \<lparr> LogicalResourceId = js ''Bucket'', PhysicalResourceId = js ''b-1'',
                 ResourceType = js ''AWS::S3::Bucket'' \<rparr>,
               \<lparr> LogicalResourceId = js ''C'', PhysicalResourceId = js ''C'',
                 ResourceType = js ''AWS::CloudFormation::Stack'' \<rparr>]
         else [] \<rparr>"
  have w: "nestedWithin (Suc (Suc 0)) ?cf (js ''A'')"
    by (simp add: listSubstacks_def listStackResourcesByType_def js_def)
  have v: "getStackTemplates (Suc (Suc 0)) ?cf (js ''A'')
     = Some [\<lparr> Resources = [(js ''A'', None)] \<rparr>, \<lparr> Resources = [(js ''B'', None)] \<rparr>,
             \<lparr> Resources = [(js ''C'', None)] \<rparr>]"
    by (simp add: listSubstacks_def listStackResourcesByType_def js_def)
  from nested_enumeration_unbounded[of "Suc (Suc 0)" ?cf "js ''A''",
      THEN conjunct2, THEN conjunct2, THEN conjunct1, rule_format, OF w]
  obtain ts where ts: "\<forall>d' \<ge> Suc (Suc 0). getStackTemplates d' ?cf (js ''A'') = Some ts"
    by blast
  have two: "getStackTemplates (Suc (Suc 0)) ?cf (js ''A'') = Some ts"
    by (rule ts[rule_format, OF le_refl])
  have le: "Suc (Suc 0) \<le> 7" by simp
  have seven: "getStackTemplates 7 ?cf (js ''A'') = Some ts"
    by (rule ts[rule_format, OF le])
  from two v have "Some ts = Some [\<lparr> Resources = [(js ''A'', None)] \<rparr>,
             \<lparr> Resources = [(js ''B'', None)] \<rparr>, \<lparr> Resources = [(js ''C'', None)] \<rparr>]"
    by (rule trans[OF sym])
  with seven have "getStackTemplates 7 ?cf (js ''A'')
     = Some [\<lparr> Resources = [(js ''A'', None)] \<rparr>, \<lparr> Resources = [(js ''B'', None)] \<rparr>,
             \<lparr> Resources = [(js ''C'', None)] \<rparr>]" by (rule trans)
  with w show ?thesis by (intro conjI)
qed

text \<open>
  C6, as stated, fails on the code. Let a stack list itself as its nested stack. Then
  \<open>getStackTemplates\<close> has no value for any number of nested activations: the recursion
  has no depth bound that would end it, and the traversal never returns.
\<close>

theorem nested_enumeration_counterexample:
  "\<forall>d. getStackTemplates d
         \<lparr> templateOf = \<lambda>sid. \<lparr> Resources = [] \<rparr>,
           resourcesOf = \<lambda>sid. [\<lparr> LogicalResourceId = js ''Self'',
                                    PhysicalResourceId = js ''stack-a'',
                                    ResourceType = js ''AWS::CloudFormation::Stack'' \<rparr>] \<rparr>
         (js ''stack-a'') = None"
proof
  fix d
  let ?cf = "\<lparr> templateOf = \<lambda>sid. \<lparr> Resources = [] \<rparr>,
           resourcesOf = \<lambda>sid. [\<lparr> LogicalResourceId = js ''Self'',
                                    PhysicalResourceId = js ''stack-a'',
                                    ResourceType = js ''AWS::CloudFormation::Stack'' \<rparr>] \<rparr>"
  let ?n = "\<lparr> LogicalResourceId = js ''Self'', PhysicalResourceId = js ''stack-a'',
              ResourceType = js ''AWS::CloudFormation::Stack'' \<rparr>"
  have "?n \<in> set (listSubstacks ?cf (js ''stack-a''))"
    by (simp add: listSubstacks_def listStackResourcesByType_def)
  then have "\<not> nestedWithin d ?cf (js ''stack-a'')"
    by (rule self_nested_never_within) simp
  then show "getStackTemplates d ?cf (js ''stack-a'') = None"
    using getStackTemplates_returns_iff[of d ?cf "js ''stack-a''"] by simp
qed

end
